theory Spec2Isabelle
  imports Main "HOL-Library.Sublist" "HOL-Library.AList"
begin

section \<open>Python strings\<close>

text \<open>
  A Python \<^verbatim>\<open>str\<close> is a sequence of Unicode code points, so it is modelled as a list of
  natural numbers: slicing \<^verbatim>\<open>s[:10]\<close> is \<open>take 10\<close>, and \<^verbatim>\<open>kw in s\<close> is the contiguous
  \<open>sublist\<close> test. ASCII literals are written through \<open>ascii\<close>; the Chinese literals of
  the source are given by their code points.
\<close>

type_synonym pystr = "nat list"

definition ascii :: "string \<Rightarrow> pystr" where
  "ascii s = map of_char s"

text \<open>
  \<^verbatim>\<open>str.strip()\<close> without arguments removes the code points for which CPython's
  \<^verbatim>\<open>Py_UNICODE_ISSPACE\<close> holds.
\<close>

definition py_isspace :: "nat \<Rightarrow> bool" where
  "py_isspace c \<longleftrightarrow>
     (0x09 \<le> c \<and> c \<le> 0x0D) \<or> (0x1C \<le> c \<and> c \<le> 0x20) \<or> c = 0x85 \<or> c = 0xA0 \<or>
     c = 0x1680 \<or> (0x2000 \<le> c \<and> c \<le> 0x200A) \<or> c = 0x2028 \<or> c = 0x2029 \<or>
     c = 0x202F \<or> c = 0x205F \<or> c = 0x3000"

definition py_strip :: "pystr \<Rightarrow> pystr" where
  "py_strip s = rev (dropWhile py_isspace (rev (dropWhile py_isspace s)))"

text \<open>
  \<^verbatim>\<open>str.lower()\<close> is only ever compared with \<^verbatim>\<open>'none'\<close>. The only code points whose
  lower-case form is a piece of \<^verbatim>\<open>none\<close> are the ASCII letters N, O, E and n, o, e, so
  lowering the ASCII capitals and leaving every other code point alone decides the
  comparison exactly as the full Unicode mapping does.
\<close>

definition ascii_lower :: "nat \<Rightarrow> nat" where
  "ascii_lower c = (if 0x41 \<le> c \<and> c \<le> 0x5A then c + 0x20 else c)"

definition py_lower :: "pystr \<Rightarrow> pystr" where
  "py_lower s = map ascii_lower s"

text \<open>Decimal digits of a natural number, as \<^verbatim>\<open>str(n)\<close> prints them.\<close>

fun digits :: "nat \<Rightarrow> pystr" where
  "digits n = (if n < 10 then [0x30 + n] else digits (n div 10) @ [0x30 + n mod 10])"

declare digits.simps [simp del]

definition str_int :: "int \<Rightarrow> pystr" where
  "str_int i = (if i < 0 then ascii ''-'' @ digits (nat (- i)) else digits (nat i))"

section \<open>Python floats\<close>

text \<open>
  A \<^verbatim>\<open>float\<close> is an IEEE 754 double: a sign and either a finite magnitude \<open>m * 2 ^ e\<close>
  (kept exactly, as mantissa and binary exponent), an infinity, or a NaN.
\<close>

datatype pyfloat = Finite bool nat int | Infinity bool | NaN

text \<open>The quotient \<open>n / d\<close> rounded to the nearest integer, ties to the even one.\<close>

definition round_half_even :: "nat \<Rightarrow> nat \<Rightarrow> nat" where
  "round_half_even n d =
     (let q = n div d; r = n mod d
      in if d < 2 * r \<or> (2 * r = d \<and> odd q) then q + 1 else q)"

text \<open>\<^verbatim>\<open>int.bit_length()\<close>.\<close>

fun bit_length :: "nat \<Rightarrow> nat" where
  "bit_length n = (if n = 0 then 0 else Suc (bit_length (n div 2)))"

declare bit_length.simps [simp del]

text \<open>
  \<open>floor_log2 n d\<close> is the integer part of the binary logarithm of \<open>n / d\<close>, for positive
  \<open>n\<close> and \<open>d\<close>: the difference of the bit lengths, or one less.
\<close>

definition floor_log2 :: "nat \<Rightarrow> nat \<Rightarrow> int" where
  "floor_log2 n d =
     (let k = int (bit_length n) - int (bit_length d)
      in if (if 0 \<le> k then d * 2 ^ nat k \<le> n else d \<le> n * 2 ^ nat (- k)) then k else k - 1)"

text \<open>
  \<open>to_double n d\<close> rounds the non-negative rational \<open>n / d\<close> to the nearest double
  (53 significant bits, least exponent \<open>-1074\<close>, ties to even) and gives its mantissa
  and exponent, or \<open>None\<close> when the rounded magnitude reaches \<open>2 ^ 1024\<close>.
\<close>

definition to_double :: "nat \<Rightarrow> nat \<Rightarrow> (nat \<times> int) option" where
  "to_double n d =
     (if n = 0 then Some (0, 0)
      else
        let e = max (floor_log2 n d - 52) (- 1074);
            m = (if 0 \<le> e then round_half_even n (d * 2 ^ nat e)
                 else round_half_even (n * 2 ^ nat (- e)) d)
        in if 971 < e \<or> (e = 971 \<and> 2 ^ 53 \<le> m) then None else Some (m, e))"

subsection \<open>Formatting with \<^verbatim>\<open>,.2f\<close>\<close>

text \<open>
  The integer part in groups of three digits separated by commas
  (the \<^verbatim>\<open>,\<close> option of the format specification).
\<close>

definition pad3 :: "nat \<Rightarrow> pystr" where
  "pad3 n = [0x30 + n div 100 mod 10, 0x30 + n div 10 mod 10, 0x30 + n mod 10]"

fun group3 :: "nat \<Rightarrow> pystr" where
  "group3 n =
     (if n < 1000 then digits n else group3 (n div 1000) @ ascii '','' @ pad3 (n mod 1000))"

declare group3.simps [simp del]

text \<open>
  \<open>hundredths m e\<close> is \<open>m * 2 ^ e * 100\<close> rounded to the nearest integer, ties to even:
  the \<^verbatim>\<open>f\<close> presentation rounds the exact binary value correctly.
\<close>

definition hundredths :: "nat \<Rightarrow> int \<Rightarrow> nat" where
  "hundredths m e =
     (if 0 \<le> e then m * 100 * 2 ^ nat e else round_half_even (m * 100) (2 ^ nat (- e)))"

fun format_2f :: "pyfloat \<Rightarrow> pystr" where
  "format_2f (Finite s m e) =
     (let n = hundredths m e
      in (if s then ascii ''-'' else []) @ group3 (n div 100) @ ascii ''.'' @
         [0x30 + n div 10 mod 10, 0x30 + n mod 10])"
| "format_2f (Infinity s) = (if s then ascii ''-inf'' else ascii ''inf'')"
| "format_2f NaN = ascii ''nan''"

subsection \<open>\<^verbatim>\<open>float(str)\<close>\<close>

definition is_digit :: "nat \<Rightarrow> bool" where
  "is_digit c \<longleftrightarrow> 0x30 \<le> c \<and> c \<le> 0x39"

text \<open>The C-locale white space \<^verbatim>\<open>Py_ISSPACE\<close> that the float parser strips.\<close>

definition c_isspace :: "nat \<Rightarrow> bool" where
  "c_isspace c \<longleftrightarrow> c = 0x20 \<or> (0x09 \<le> c \<and> c \<le> 0x0D)"

text \<open>
  The decimal digits of Unicode (the code points with a decimal value, as
  \<^verbatim>\<open>Py_UNICODE_TODECIMAL\<close> reads them from the Unicode 14.0 database of CPython 3.11) come
  in runs of ten consecutive code points, zero to nine. \<open>decimal_zeros\<close> lists the zero
  of every run: ASCII, Arabic-Indic, Devanagari, ..., the full-width forms at
  \<open>0xFF10\<close>, the five mathematical styles from \<open>0x1D7CE\<close>, and so on.
\<close>

definition decimal_zeros :: "nat list" where
  "decimal_zeros =
     [0x30, 0x660, 0x6F0, 0x7C0, 0x966, 0x9E6, 0xA66, 0xAE6, 0xB66, 0xBE6, 0xC66, 0xCE6,
      0xD66, 0xDE6, 0xE50, 0xED0, 0xF20, 0x1040, 0x1090, 0x17E0, 0x1810, 0x1946, 0x19D0,
      0x1A80, 0x1A90, 0x1B50, 0x1BB0, 0x1C40, 0x1C50, 0xA620, 0xA8D0, 0xA900, 0xA9D0,
      0xA9F0, 0xAA50, 0xABF0, 0xFF10, 0x104A0, 0x10D30, 0x11066, 0x110F0, 0x11136,
      0x111D0, 0x112F0, 0x11450, 0x114D0, 0x11650, 0x116C0, 0x11730, 0x118E0, 0x11950,
      0x11C50, 0x11D50, 0x11DA0, 0x16A60, 0x16AC0, 0x16B50, 0x1D7CE, 0x1D7D8, 0x1D7E2,
      0x1D7EC, 0x1D7F6, 0x1E140, 0x1E2F0, 0x1E950, 0x1FBF0]"

text \<open>The decimal value of a code point, if it is a decimal digit.\<close>

definition to_decimal :: "nat \<Rightarrow> nat option" where
  "to_decimal c =
     (case filter (\<lambda>z. z \<le> c \<and> c < z + 10) decimal_zeros of
        [] \<Rightarrow> None
      | z # zs \<Rightarrow> Some (c - z))"

text \<open>
  Before parsing, CPython keeps every code point below 127, turns Unicode white space
  into a blank, a decimal digit of any script into the ASCII digit of its value, and
  any other code point into a question mark. (CPython also cuts the text after the first
  question mark; as no number contains one, the parse fails either way.)
\<close>

definition to_ascii :: "pystr \<Rightarrow> pystr" where
  "to_ascii s =
     map (\<lambda>c. if c < 127 then c
              else if py_isspace c then 0x20
              else case to_decimal c of Some d \<Rightarrow> 0x30 + d | None \<Rightarrow> 0x3F) s"

text \<open>
  Underscores are dropped when each stands between two digits; \<open>prev\<close> is the code
  point read before (0 at the start).
\<close>

fun strip_underscores :: "nat \<Rightarrow> pystr \<Rightarrow> pystr option" where
  "strip_underscores prev [] = (if prev = 0x5F then None else Some [])"
| "strip_underscores prev (c # cs) =
     (if c = 0x5F then (if is_digit prev then strip_underscores c cs else None)
      else if prev = 0x5F \<and> \<not> is_digit c then None
      else map_option ((#) c) (strip_underscores c cs))"

definition digits_value :: "pystr \<Rightarrow> nat" where
  "digits_value ds = foldl (\<lambda>a c. 10 * a + (c - 0x30)) 0 ds"

text \<open>An optional leading sign: whether it is a minus, and the rest.\<close>

fun split_sign :: "pystr \<Rightarrow> bool \<times> pystr" where
  "split_sign [] = (False, [])"
| "split_sign (c # r) =
     (if c = 0x2D then (True, r) else if c = 0x2B then (False, r) else (False, c # r))"

text \<open>
  \<open>parse_decimal s\<close> reads digits, an optional point and digits, and an optional
  exponent (\<^verbatim>\<open>e\<close> or \<^verbatim>\<open>E\<close>, an optional sign, at least one digit), with at least one
  digit before the exponent and nothing left over. The result is the exact value as a
  fraction \<open>(n, d)\<close>.
\<close>

definition parse_decimal :: "pystr \<Rightarrow> (nat \<times> nat) option" where
  "parse_decimal s =
     (let ip = takeWhile is_digit s;
          r1 = dropWhile is_digit s;
          has_point = (r1 \<noteq> [] \<and> hd r1 = 0x2E);
          fp = (if has_point then takeWhile is_digit (tl r1) else []);
          r2 = (if has_point then dropWhile is_digit (tl r1) else r1);
          mant = digits_value (ip @ fp)
      in if ip = [] \<and> fp = [] then None
         else if r2 = [] then Some (mant, 10 ^ length fp)
         else if hd r2 = 0x65 \<or> hd r2 = 0x45 then
           (let (neg, ds) = split_sign (tl r2)
            in if ds \<noteq> [] \<and> list_all is_digit ds then
                 (if neg then Some (mant, 10 ^ (length fp + digits_value ds))
                  else Some (mant * 10 ^ digits_value ds, 10 ^ length fp))
               else None)
         else None)"

datatype py_error = TypeError | ValueError | OverflowError | KeyError

definition float_of_str :: "pystr \<Rightarrow> py_error + pyfloat" where
  "float_of_str s =
     (let t = rev (dropWhile c_isspace (rev (dropWhile c_isspace (to_ascii s))))
      in case strip_underscores 0 t of
           None \<Rightarrow> Inl ValueError
         | Some u \<Rightarrow>
             (let (neg, body) = split_sign u
              in if py_lower body = ascii ''inf'' \<or> py_lower body = ascii ''infinity''
                 then Inr (Infinity neg)
                 else if py_lower body = ascii ''nan'' then Inr NaN
                 else (case parse_decimal body of
                         None \<Rightarrow> Inl ValueError
                       | Some (n, d) \<Rightarrow>
                           (case to_double n d of
                              None \<Rightarrow> Inr (Infinity neg)
                            | Some (m, e) \<Rightarrow> Inr (Finite neg m e)))))"

section \<open>Values of a raw record\<close>

text \<open>
  A raw record is a JSON object of the feed: a mapping from field keys to scalar values
  (null, booleans, integers, floats, strings).
\<close>

datatype pyval = PNone | PBool bool | PInt int | PFloat pyfloat | PStr pystr

type_synonym raw = "pystr \<rightharpoonup> pyval"

text \<open>
  \<^verbatim>\<open>str(value)\<close>. The text of a float (its shortest round-trip \<^verbatim>\<open>repr\<close>) is taken as
  the parameter \<open>fr\<close>: nothing below depends on which text that is.
\<close>

fun py_str :: "(pyfloat \<Rightarrow> pystr) \<Rightarrow> pyval \<Rightarrow> pystr" where
  "py_str fr PNone = ascii ''None''"
| "py_str fr (PBool b) = (if b then ascii ''True'' else ascii ''False'')"
| "py_str fr (PInt i) = str_int i"
| "py_str fr (PFloat f) = fr f"
| "py_str fr (PStr s) = s"

text \<open>\<^verbatim>\<open>float(value)\<close>; an integer too large for a double raises \<^verbatim>\<open>OverflowError\<close>.\<close>

fun py_float :: "pyval \<Rightarrow> py_error + pyfloat" where
  "py_float PNone = Inl TypeError"
| "py_float (PBool b) = Inr (Finite False (if b then 1 else 0) 0)"
| "py_float (PInt i) =
     (case to_double (nat \<bar>i\<bar>) 1 of
        None \<Rightarrow> Inl OverflowError
      | Some (m, e) \<Rightarrow> Inr (Finite (i < 0) m e))"
| "py_float (PFloat f) = Inr f"
| "py_float (PStr s) = float_of_str s"

text \<open>Truth value of a value in a condition.\<close>

fun truthy :: "pyval \<Rightarrow> bool" where
  "truthy PNone = False"
| "truthy (PBool b) = b"
| "truthy (PInt i) = (i \<noteq> 0)"
| "truthy (PFloat (Finite s m e)) = (m \<noteq> 0)"
| "truthy (PFloat f) = True"
| "truthy (PStr s) = (s \<noteq> [])"

text \<open>The missing sentinel \<^verbatim>\<open>'-'\<close>.\<close>

definition dash :: pyval where
  "dash = PStr (ascii ''-'')"

text \<open>
  Line 92: \<^verbatim>\<open>value is None or str(value).strip() == '' or str(value).lower() == 'none'\<close>.
\<close>

definition is_missing :: "(pyfloat \<Rightarrow> pystr) \<Rightarrow> pyval \<Rightarrow> bool" where
  "is_missing fr v \<longleftrightarrow>
     v = PNone \<or> py_strip (py_str fr v) = [] \<or> py_lower (py_str fr v) = ascii ''none''"

section \<open>Field names and the field-mapping table\<close>

text \<open>Feed keys, all ASCII.\<close>

definition SCGGRQ :: pystr where "SCGGRQ = ascii ''SCGGRQ''"
definition SCODE :: pystr where "SCODE = ascii ''SCODE''"
definition SNAME :: pystr where "SNAME = ascii ''SNAME''"
definition OBJTYPE :: pystr where "OBJTYPE = ascii ''OBJTYPE''"
definition H_COMNAME :: pystr where "H_COMNAME = ascii ''H_COMNAME''"
definition G_GOMNAME :: pystr where "G_GOMNAME = ascii ''G_GOMNAME''"
definition S_COMNAME :: pystr where "S_COMNAME = ascii ''S_COMNAME''"
definition JYJE :: pystr where "JYJE = ascii ''JYJE''"
definition BZNAME :: pystr where "BZNAME = ascii ''BZNAME''"
definition ZRFS :: pystr where "ZRFS = ascii ''ZRFS''"
definition ANNOUNDATE :: pystr where "ANNOUNDATE = ascii ''ANNOUNDATE''"

text \<open>
  Report keys, by code point: serial number (xuhao), stock code, stock short name,
  related, deal target, seller, buyer, deal amount (in units of ten thousand),
  currency, deal method, latest announcement date, and the two renderings of the
  related links (with separator, with line break).
\<close>

definition k_serial :: pystr where "k_serial = [0x5E8F, 0x53F7]"
definition k_code :: pystr where "k_code = [0x80A1, 0x7968, 0x4EE3, 0x7801]"
definition k_name :: pystr where "k_name = [0x80A1, 0x7968, 0x7B80, 0x79F0]"
definition k_related :: pystr where "k_related = [0x76F8, 0x5173]"
definition k_target :: pystr where "k_target = [0x4EA4, 0x6613, 0x6807, 0x7684]"
definition k_seller :: pystr where "k_seller = [0x5356, 0x65B9]"
definition k_buyer :: pystr where "k_buyer = [0x4E70, 0x65B9]"
definition k_amount :: pystr where
  "k_amount = [0x4EA4, 0x6613, 0x91D1, 0x989D, 0x20, 0x28, 0x4E07, 0x29]"
definition k_currency :: pystr where "k_currency = [0x5E01, 0x79CD]"
definition k_method :: pystr where "k_method = [0x5E76, 0x8D2D, 0x65B9, 0x5F0F]"
definition k_announce :: pystr where "k_announce = [0x6700, 0x65B0, 0x516C, 0x544A, 0x65E5]"
definition k_related_sep :: pystr where
  "k_related_sep = [0x76F8, 0x5173, 0x5F, 0x5E26, 0x5206, 0x9694, 0x7B26]"
definition k_related_br :: pystr where
  "k_related_br = [0x76F8, 0x5173, 0x5F, 0x6362, 0x884C]"

text \<open>\<^verbatim>\<open>self.field_mapping\<close>, in the order the dictionary is iterated.\<close>

definition field_mapping :: "(pystr \<times> pystr) list" where
  "field_mapping =
     [(SCODE, k_code), (SNAME, k_name), (OBJTYPE, k_related), (H_COMNAME, k_target),
      (G_GOMNAME, k_seller), (S_COMNAME, k_buyer), (JYJE, k_amount), (BZNAME, k_currency),
      (ZRFS, k_method), (ANNOUNDATE, k_announce)]"

text \<open>\<^verbatim>\<open>self.gd_keywords\<close>: Guangdong, its short name Yue, and its cities.\<close>

definition gd_keywords :: "pystr list" where
  "gd_keywords =
     [[0x5E7F, 0x4E1C], [0x7CA4], [0x5E7F, 0x5DDE], [0x6DF1, 0x5733], [0x73E0, 0x6D77],
      [0x4F5B, 0x5C71], [0x4E1C, 0x839E], [0x4E2D, 0x5C71], [0x60E0, 0x5DDE],
      [0x6C5F, 0x95E8], [0x8087, 0x5E86], [0x6C55, 0x5934], [0x6F6E, 0x5DDE],
      [0x63ED, 0x9633], [0x6C55, 0x5C3E], [0x97F6, 0x5173], [0x6E05, 0x8FDC],
      [0x6885, 0x5DDE], [0x6CB3, 0x6E90], [0x9633, 0x6C5F], [0x8302, 0x540D],
      [0x6E5B, 0x6C5F], [0x5CAD, 0x5357]]"

section \<open>The data processor\<close>

text \<open>
  A row is a Python dictionary: an association list in insertion order, where
  assigning to a key that is present replaces its value in place
  (\<open>AList.update\<close>) and \<open>map_of\<close> looks a key up.
\<close>

type_synonym row = "(pystr \<times> pyval) list"

text \<open>
  The state of a \<^verbatim>\<open>DataProcessor\<close> that the methods read or write: the target date
  \<^verbatim>\<open>self.today\<close> and the list \<^verbatim>\<open>self.guangdong_cases\<close>.
\<close>

record processor =
  today :: pystr
  guangdong_cases :: "row list"

subsection \<open>\<^verbatim>\<open>is_guangdong_company\<close>\<close>

text \<open>The loop over the keywords; \<^verbatim>\<open>kw in company_name\<close> is the substring test.\<close>

fun any_keyword_in :: "pystr list \<Rightarrow> pystr \<Rightarrow> bool" where
  "any_keyword_in [] name = False"
| "any_keyword_in (kw # kws) name = (if sublist kw name then True else any_keyword_in kws name)"

text \<open>
  A name that is not a string is not equal to \<^verbatim>\<open>'-'\<close>, and the first
  \<^verbatim>\<open>kw in company_name\<close> raises \<^verbatim>\<open>TypeError\<close> on it (the keyword list is not empty).
\<close>

fun is_guangdong_company :: "pyval \<Rightarrow> py_error + bool" where
  "is_guangdong_company (PStr name) =
     (if name = ascii ''-'' then Inr False else Inr (any_keyword_in gd_keywords name))"
| "is_guangdong_company v = Inl TypeError"

subsection \<open>Building one row (lines 83 to 117)\<close>

definition notice_url :: "pystr \<Rightarrow> pystr" where
  "notice_url code = ascii ''https://data.eastmoney.com/notices/stock/'' @ code @ ascii ''.html''"

definition detail_url :: "pystr \<Rightarrow> pystr" where
  "detail_url code = ascii ''https://data.eastmoney.com/bgcz/detail/'' @ code @ ascii ''.html''"

text \<open>
  The two link texts; \<open>0x22\<close> is the double quote, and the anchor texts are
  the words for notice (\<open>0x516C 0x544A\<close>) and detail (\<open>0x8BE6 0x7EC6\<close>).
\<close>

definition anchor :: "pystr \<Rightarrow> pystr \<Rightarrow> pystr" where
  "anchor url label =
     ascii ''<a href='' @ [0x22] @ url @ [0x22] @ ascii '' target='' @ [0x22] @
     ascii ''_blank'' @ [0x22] @ ascii ''>'' @ label @ ascii ''</a>''"

definition links_sep :: "pystr \<Rightarrow> pystr" where
  "links_sep code =
     anchor (notice_url code) [0x516C, 0x544A] @ ascii '' | '' @
     anchor (detail_url code) [0x8BE6, 0x7EC6]"

definition links_br :: "pystr \<Rightarrow> pystr" where
  "links_br code =
     anchor (notice_url code) [0x516C, 0x544A] @ ascii ''<br>'' @
     anchor (detail_url code) [0x8BE6, 0x7EC6]"

text \<open>Lines 90 to 93: the value of a field, coerced to the sentinel when missing.\<close>

definition coerced :: "(pyfloat \<Rightarrow> pystr) \<Rightarrow> raw \<Rightarrow> pystr \<Rightarrow> pyval" where
  "coerced fr item api_field =
     (let v = (case item api_field of None \<Rightarrow> dash | Some x \<Rightarrow> x)
      in if is_missing fr v then dash else v)"

text \<open>
  One pass of the loop over the mapping table (lines 89 to 117). The amount is only
  written when the value is not the sentinel, any exception of \<^verbatim>\<open>float\<close> is caught;
  slicing a date that is not a string raises \<^verbatim>\<open>TypeError\<close>.
\<close>

definition map_field ::
  "(pyfloat \<Rightarrow> pystr) \<Rightarrow> raw \<Rightarrow> pyval \<Rightarrow> pystr \<times> pystr \<Rightarrow> row \<Rightarrow> py_error + row" where
  "map_field fr item stock_code fld r =
     (let api_field = fst fld; report_field = snd fld; v = coerced fr item api_field
      in if api_field = JYJE then
           (if v \<noteq> dash then
              (case py_float v of
                 Inr amount \<Rightarrow> Inr (AList.update report_field (PStr (format_2f amount)) r)
               | Inl err \<Rightarrow> Inr (AList.update report_field dash r))
            else Inr r)
         else if api_field = OBJTYPE then
           (if truthy stock_code \<and> v \<noteq> dash then
              Inr (AList.update k_related_br (PStr (links_br (py_str fr stock_code)))
                    (AList.update k_related_sep (PStr (links_sep (py_str fr stock_code))) r))
            else Inr (AList.update k_related_br dash (AList.update k_related_sep dash r)))
         else if api_field = ANNOUNDATE then
           (if v \<noteq> dash then
              (case v of
                 PStr s \<Rightarrow> Inr (AList.update report_field (PStr (take 10 s)) r)
               | _ \<Rightarrow> Inl TypeError)
            else Inr (AList.update report_field dash r))
         else Inr (AList.update report_field v r))"

fun map_fields ::
  "(pyfloat \<Rightarrow> pystr) \<Rightarrow> raw \<Rightarrow> pyval \<Rightarrow> (pystr \<times> pystr) list \<Rightarrow> row \<Rightarrow> py_error + row" where
  "map_fields fr item stock_code [] r = Inr r"
| "map_fields fr item stock_code (fld # flds) r =
     (case map_field fr item stock_code fld r of
        Inl err \<Rightarrow> Inl err
      | Inr r' \<Rightarrow> map_fields fr item stock_code flds r')"

text \<open>Line 85: \<^verbatim>\<open>item.get('SCODE', '')\<close>.\<close>

definition stock_code_of :: "raw \<Rightarrow> pyval" where
  "stock_code_of item = (case item SCODE of None \<Rightarrow> PStr [] | Some x \<Rightarrow> x)"

definition build_row :: "(pyfloat \<Rightarrow> pystr) \<Rightarrow> int \<Rightarrow> raw \<Rightarrow> py_error + row" where
  "build_row fr serial_number item =
     map_fields fr item (stock_code_of item) field_mapping
       [(k_serial, PInt serial_number), (k_amount, dash)]"

subsection \<open>The date filter (lines 79 to 81)\<close>

text \<open>\<^verbatim>\<open>item.get('SCGGRQ', '')[:10]\<close>: only a string can be sliced.\<close>

definition item_date :: "raw \<Rightarrow> py_error + pystr" where
  "item_date item =
     (case item SCGGRQ of
        None \<Rightarrow> Inr []
      | Some (PStr s) \<Rightarrow> Inr (take 10 s)
      | Some v \<Rightarrow> Inl TypeError)"

subsection \<open>Region tagging (lines 121 to 128)\<close>

text \<open>\<^verbatim>\<open>row.get(key, '')\<close>.\<close>

definition get_or_empty :: "row \<Rightarrow> pystr \<Rightarrow> pyval" where
  "get_or_empty r k = (case map_of r k of None \<Rightarrow> PStr [] | Some v \<Rightarrow> v)"

text \<open>The condition of line 124; \<^verbatim>\<open>or\<close> does not look at the buyer when the seller matches.\<close>

definition is_guangdong_row :: "row \<Rightarrow> py_error + bool" where
  "is_guangdong_row r =
     (case is_guangdong_company (get_or_empty r k_seller) of
        Inl err \<Rightarrow> Inl err
      | Inr True \<Rightarrow> Inr True
      | Inr False \<Rightarrow> is_guangdong_company (get_or_empty r k_buyer))"

text \<open>
  Lines 126 and 127: the copy of the row with the related field set to the rendering
  with separator (\<^verbatim>\<open>KeyError\<close> if the row had no such rendering).
\<close>

definition case_data :: "row \<Rightarrow> py_error + row" where
  "case_data r =
     (case map_of r k_related_sep of
        None \<Rightarrow> Inl KeyError
      | Some v \<Rightarrow> Inr (AList.update k_related v r))"

subsection \<open>\<^verbatim>\<open>process\<close>\<close>

text \<open>
  The loop of \<^verbatim>\<open>process\<close>, with its three variables \<^verbatim>\<open>serial_number\<close>,
  \<^verbatim>\<open>processed_data\<close> and \<^verbatim>\<open>self.guangdong_cases\<close>. An exception ends the loop; the
  cases appended so far stay in the processor.
\<close>

fun process_loop ::
  "(pyfloat \<Rightarrow> pystr) \<Rightarrow> pystr \<Rightarrow> raw list \<Rightarrow> int \<Rightarrow> row list \<Rightarrow> row list \<Rightarrow>
     (py_error + row list) \<times> row list" where
  "process_loop fr td [] serial_number processed_data cases = (Inr processed_data, cases)"
| "process_loop fr td (item # rest) serial_number processed_data cases =
     (case item_date item of
        Inl err \<Rightarrow> (Inl err, cases)
      | Inr d \<Rightarrow>
          if d \<noteq> td then process_loop fr td rest serial_number processed_data cases
          else
            (case build_row fr serial_number item of
               Inl err \<Rightarrow> (Inl err, cases)
             | Inr r \<Rightarrow>
                 (case is_guangdong_row r of
                    Inl err \<Rightarrow> (Inl err, cases)
                  | Inr False \<Rightarrow>
                      process_loop fr td rest (serial_number + 1) (processed_data @ [r]) cases
                  | Inr True \<Rightarrow>
                      (case case_data r of
                         Inl err \<Rightarrow> (Inl err, cases)
                       | Inr c \<Rightarrow>
                           process_loop fr td rest (serial_number + 1) (processed_data @ [r])
                             (cases @ [c])))))"

definition process ::
  "(pyfloat \<Rightarrow> pystr) \<Rightarrow> processor \<Rightarrow> raw list \<Rightarrow> (py_error + row list) \<times> processor" where
  "process fr p raw_data =
     (if raw_data = [] then (Inr [], p)
      else
        (let res = process_loop fr (today p) raw_data 1 [] (guangdong_cases p)
         in (fst res, p\<lparr>guangdong_cases := snd res\<rparr>)))"

subsection \<open>\<^verbatim>\<open>analyze\<close>\<close>

text \<open>
  The dictionary that \<^verbatim>\<open>analyze\<close> returns. The distribution lists each deal method
  with its count.
\<close>

record analysis =
  overview :: pystr
  basic_overview :: pystr
  cases :: "row list"
  a_guangdong_cases :: "row list"
  guangdong_count :: nat
  total_count :: nat
  method_distribution :: "(pyval \<times> nat) list"

text \<open>The overview for no data: "no merger and reorganisation announcements today".\<close>

definition no_data_overview :: pystr where
  "no_data_overview =
     [0x4ECA, 0x65E5, 0x65E0, 0x5E76, 0x8D2D, 0x91CD, 0x7EC4, 0x6570, 0x636E, 0x516C, 0x544A]"

definition no_data :: analysis where
  "no_data =
     \<lparr>overview = no_data_overview, basic_overview = no_data_overview, cases = [],
      a_guangdong_cases = [], guangdong_count = 0, total_count = 0,
      method_distribution = []\<rparr>"

text \<open>The overview with data: "today n merger and reorganisation records were fetched".\<close>

definition count_overview :: "nat \<Rightarrow> pystr" where
  "count_overview n =
     [0x4ECA, 0x65E5, 0x5171, 0x83B7, 0x53D6] @ digits n @
     [0x6761, 0x5E76, 0x8D2D, 0x91CD, 0x7EC4, 0x6570, 0x636E]"

text \<open>
  The column of the data frame under the deal-method key: a row without the key holds
  NaN there, and selecting a column that no row has raises \<^verbatim>\<open>KeyError\<close>.
\<close>

definition method_column :: "row list \<Rightarrow> py_error + pyval list" where
  "method_column rows =
     (if list_all (\<lambda>r. map_of r k_method = None) rows then Inl KeyError
      else Inr (map (\<lambda>r. case map_of r k_method of None \<Rightarrow> PFloat NaN | Some v \<Rightarrow> v) rows))"

text \<open>
  \<^verbatim>\<open>analyze\<close> in state-passing form: it returns the processor it was called on. The
  grouping of pandas (\<^verbatim>\<open>value_counts().to_dict()\<close>) is the parameter \<open>vc\<close>.
\<close>

definition analyze ::
  "(pyval list \<Rightarrow> (pyval \<times> nat) list) \<Rightarrow> processor \<Rightarrow> row list \<Rightarrow>
     (py_error + analysis) \<times> processor" where
  "analyze vc p processed_data =
     (if processed_data = [] then (Inr no_data, p)
      else
        (case method_column processed_data of
           Inl err \<Rightarrow> (Inl err, p)
         | Inr col \<Rightarrow>
             (Inr \<lparr>overview = count_overview (length processed_data),
                   basic_overview = count_overview (length processed_data),
                   cases = [],
                   a_guangdong_cases = guangdong_cases p,
                   guangdong_count = length (guangdong_cases p),
                   total_count = length processed_data,
                   method_distribution = vc col\<rparr>, p)))"

section \<open>The rows as objects\<close>

text \<open>
  The rows are Python dictionaries, that is objects; the two lists hold references to
  them. To say which object an assignment changes, the loop is given a second time over
  a heap: a list of objects, an address being an index, and a new object taking the next
  free address. \<open>deref\<close> reads the objects a list of references points to, and a list
  of references is \<open>valid\<close> in a heap that holds all its addresses.
\<close>

type_synonym addr = nat

type_synonym heap = "row list"

definition alloc :: "heap \<Rightarrow> row \<Rightarrow> heap \<times> addr" where
  "alloc h r = (h @ [r], length h)"

definition deref :: "heap \<Rightarrow> addr list \<Rightarrow> row list" where
  "deref h as = map (\<lambda>a. h ! a) as"

text \<open>
  Lines 122 to 128 for the row at address \<open>a\<close> (an address the heap holds):
  \<^verbatim>\<open>row.copy()\<close> allocates a new dictionary with the same items, the assignment to the
  related field updates that new object in place, and its address is appended to the
  cases.
\<close>

definition classify :: "heap \<Rightarrow> addr \<Rightarrow> addr list \<Rightarrow> (py_error + unit) \<times> heap \<times> addr list" where
  "classify h a cs =
     (case is_guangdong_row (h ! a) of
        Inl err \<Rightarrow> (Inl err, h, cs)
      | Inr False \<Rightarrow> (Inr (), h, cs)
      | Inr True \<Rightarrow>
          (let hc = alloc h (h ! a); h1 = fst hc; c = snd hc
           in case map_of (h1 ! c) k_related_sep of
                None \<Rightarrow> (Inl KeyError, h1, cs)
              | Some v \<Rightarrow> (Inr (), h1[c := AList.update k_related v (h1 ! c)], cs @ [c])))"

text \<open>
  The loop of \<^verbatim>\<open>process\<close> over the heap. The dictionary of line 83 is entered into the
  heap once its fields are set (when setting them raises, the unfinished dictionary is
  referenced by nothing).
\<close>

fun process_heap_loop ::
  "(pyfloat \<Rightarrow> pystr) \<Rightarrow> pystr \<Rightarrow> raw list \<Rightarrow> int \<Rightarrow> heap \<Rightarrow> addr list \<Rightarrow> addr list \<Rightarrow>
     (py_error + addr list) \<times> heap \<times> addr list" where
  "process_heap_loop fr td [] serial_number h processed_data cs = (Inr processed_data, h, cs)"
| "process_heap_loop fr td (item # rest) serial_number h processed_data cs =
     (case item_date item of
        Inl err \<Rightarrow> (Inl err, h, cs)
      | Inr d \<Rightarrow>
          if d \<noteq> td then process_heap_loop fr td rest serial_number h processed_data cs
          else
            (case build_row fr serial_number item of
               Inl err \<Rightarrow> (Inl err, h, cs)
             | Inr r \<Rightarrow>
                 (let ha = alloc h r; h1 = fst ha; a = snd ha
                  in case classify h1 a cs of
                       (Inl err, h2, cs2) \<Rightarrow> (Inl err, h2, cs2)
                     | (Inr u, h2, cs2) \<Rightarrow>
                         process_heap_loop fr td rest (serial_number + 1) h2
                           (processed_data @ [a]) cs2)))"

definition valid :: "heap \<Rightarrow> addr list \<Rightarrow> bool" where
  "valid h as \<longleftrightarrow> list_all (\<lambda>a. a < length h) as"

section \<open>The report generator and the run\<close>

text \<open>
  What a run does to the outside is a list of events: a status notification (success or
  failure, with what it reports), a written HTML file, a call of \<^verbatim>\<open>generate_pdf\<close> on a
  path, a call of \<^verbatim>\<open>send_file\<close> on a path. The status texts of the source are kept as
  constructors: no raw data, no data for today, an exception of the task, report
  generation failed, a file could not be sent, and the number of files sent.
\<close>

datatype status = Success | Failure

datatype message =
  NoRawData | NoDataToday | TaskError py_error | ReportFailed | FileSendFailed pystr
  | ReportSent nat

datatype event = Status status message | WriteHtml pystr | ConvertPdf pystr | SendFile pystr

text \<open>
  The collaborators are parameters of a run: what \<^verbatim>\<open>fetch\<close> returns (the empty list on
  any failure), the two readings of the clock, and whether rendering with writing the
  file, the PDF conversion, and the delivery of a given file succeed.
\<close>

record env =
  fetch_result :: "raw list"
  clock_today :: pystr
  clock_compact :: pystr
  render_ok :: bool
  pdf_ok :: bool
  deliver_ok :: "pystr \<Rightarrow> bool"

text \<open>The file name without extension: "merger and reorganisation daily" and the date.\<close>

definition report_name :: "pystr \<Rightarrow> pystr" where
  "report_name date_str = [0x5E76, 0x8D2D, 0x91CD, 0x7EC4, 0x65E5, 0x62A5, 0x5F] @ date_str"

text \<open>
  \<^verbatim>\<open>generate_html\<close> returns nothing for empty data before it touches the template;
  \<^verbatim>\<open>generate_pdf\<close> names the PDF after the HTML file; \<^verbatim>\<open>generate\<close> collects the paths.
\<close>

definition generate_html ::
  "env \<Rightarrow> row list \<Rightarrow> analysis \<Rightarrow> pystr \<Rightarrow> pystr option \<times> event list" where
  "generate_html e data an date_str =
     (if data = [] then (None, [])
      else if render_ok e
        then (Some (report_name date_str @ ascii ''.html''),
              [WriteHtml (report_name date_str @ ascii ''.html'')])
        else (None, []))"

definition generate_pdf :: "env \<Rightarrow> pystr \<Rightarrow> pystr \<Rightarrow> pystr option \<times> event list" where
  "generate_pdf e date_str html_path =
     (if pdf_ok e then (Some (report_name date_str @ ascii ''.pdf''), [ConvertPdf html_path])
      else (None, [ConvertPdf html_path]))"

definition generate ::
  "env \<Rightarrow> row list \<Rightarrow> analysis \<Rightarrow> pystr \<Rightarrow> pystr list \<times> event list" where
  "generate e data an date_str =
     (case generate_html e data an date_str of
        (None, ev) \<Rightarrow> ([], ev)
      | (Some html_path, ev) \<Rightarrow>
          (case generate_pdf e date_str html_path of
             (None, ev') \<Rightarrow> ([html_path], ev @ ev')
           | (Some pdf_path, ev') \<Rightarrow> ([html_path, pdf_path], ev @ ev')))"

text \<open>The loop of step 5 of \<^verbatim>\<open>main\<close>: it stops at the first file that is not delivered.\<close>

fun send_all :: "env \<Rightarrow> nat \<Rightarrow> pystr list \<Rightarrow> event list" where
  "send_all e n [] = [Status Success (ReportSent n)]"
| "send_all e n (path # paths) =
     (if deliver_ok e path then SendFile path # send_all e n paths
      else [SendFile path, Status Failure (FileSendFailed path)])"

text \<open>
  \<^verbatim>\<open>main\<close>: fetch, process with a fresh processor, analyse, generate, deliver; an
  exception of \<^verbatim>\<open>process\<close> or \<^verbatim>\<open>analyze\<close> is caught at the end and reported as a failure.
\<close>

definition main ::
  "(pyfloat \<Rightarrow> pystr) \<Rightarrow> (pyval list \<Rightarrow> (pyval \<times> nat) list) \<Rightarrow> env \<Rightarrow> event list" where
  "main fr vc e =
     (if fetch_result e = [] then [Status Success NoRawData]
      else
        (case process fr \<lparr>today = clock_today e, guangdong_cases = []\<rparr> (fetch_result e) of
           (Inl err, p) \<Rightarrow> [Status Failure (TaskError err)]
         | (Inr processed_data, p) \<Rightarrow>
             if processed_data = [] then [Status Success NoDataToday]
             else
               (case analyze vc p processed_data of
                  (Inl err, p') \<Rightarrow> [Status Failure (TaskError err)]
                | (Inr an, p') \<Rightarrow>
                    (case generate e processed_data an (clock_compact e) of
                       (report_paths, ev) \<Rightarrow>
                         if report_paths = [] then ev @ [Status Failure ReportFailed]
                         else ev @ send_all e (length report_paths) report_paths))))"

fun is_send_file :: "event \<Rightarrow> bool" where
  "is_send_file (SendFile path) = True"
| "is_send_file ev = False"

section \<open>What a row holds\<close>

text \<open>
  The cells that \<^verbatim>\<open>process\<close> computes rather than copies: the amount (written only
  when \<^verbatim>\<open>float\<close> succeeds on a value other than the sentinel) and the two link texts.
\<close>

definition amount_cell :: "(pyfloat \<Rightarrow> pystr) \<Rightarrow> raw \<Rightarrow> pyval" where
  "amount_cell fr item =
     (if coerced fr item JYJE = dash then dash
      else case py_float (coerced fr item JYJE) of
             Inr amount \<Rightarrow> PStr (format_2f amount)
           | Inl err \<Rightarrow> dash)"

definition links_cell :: "(pystr \<Rightarrow> pystr) \<Rightarrow> (pyfloat \<Rightarrow> pystr) \<Rightarrow> raw \<Rightarrow> pyval" where
  "links_cell render fr item =
     (if truthy (stock_code_of item) \<and> coerced fr item OBJTYPE \<noteq> dash
      then PStr (render (py_str fr (stock_code_of item))) else dash)"

section \<open>The words of the specification\<close>

text \<open>
  A record is retained when its disclosure date, cut to ten code points, is the target
  date.
\<close>

definition retained :: "pystr \<Rightarrow> raw \<Rightarrow> bool" where
  "retained td item \<longleftrightarrow> item_date item = Inr td"

text \<open>
  A name matches the region when it is a string other than the sentinel that contains
  one of the keywords as a contiguous piece; a row is in the region when its seller or
  its buyer matches.
\<close>

definition names_match :: "pyval \<Rightarrow> bool" where
  "names_match v =
     (case v of
        PStr name \<Rightarrow> name \<noteq> ascii ''-'' \<and> list_ex (\<lambda>kw. sublist kw name) gd_keywords
      | _ \<Rightarrow> False)"

definition region_row :: "row \<Rightarrow> bool" where
  "region_row r \<longleftrightarrow> names_match (get_or_empty r k_seller) \<or> names_match (get_or_empty r k_buyer)"

text \<open>
  A source value is missing when the key is absent, or the value is null, a string of
  white space only (or empty), or the word none in any letter case.
\<close>

fun value_missing :: "pyval option \<Rightarrow> bool" where
  "value_missing None = True"
| "value_missing (Some PNone) = True"
| "value_missing (Some (PStr s)) = (py_strip s = [] \<or> py_lower s = ascii ''none'')"
| "value_missing (Some v) = False"

text \<open>
  A text is a grouped amount with two decimals when, after an optional minus sign, it
  ends in a point and two digits, and what stands before the point is, read from the
  right, groups of three digits separated by commas with a last group of one to three
  digits.
\<close>

fun rev_grouped :: "pystr \<Rightarrow> bool" where
  "rev_grouped (a # b # c # d # rest) =
     (is_digit a \<and> is_digit b \<and> is_digit c \<and> d = 0x2C \<and> rev_grouped rest)"
| "rev_grouped ds = (ds \<noteq> [] \<and> list_all is_digit ds)"

definition grouped_2dp :: "pystr \<Rightarrow> bool" where
  "grouped_2dp t =
     (let u = (if t \<noteq> [] \<and> hd t = 0x2D then tl t else t); n = length u
      in 3 \<le> n \<and> is_digit (u ! (n - 1)) \<and> is_digit (u ! (n - 2)) \<and> u ! (n - 3) = 0x2E \<and>
         rev_grouped (rev (take (n - 3) u)))"

section \<open>Example records\<close>

text \<open>
  Three records of a feed for the target date 2024-05-06: one of that day with a
  Guangdong seller and the amount 1234567.5, one of the day before, and one of that day
  with an amount that is not a number. None holds a float, so the examples take the
  empty text for the \<^verbatim>\<open>repr\<close> of floats.
\<close>

definition no_repr :: "pyfloat \<Rightarrow> pystr" where
  "no_repr f = []"

definition today0 :: pystr where
  "today0 = ascii ''2024-05-06''"

definition gd_name :: pystr where
  "gd_name = [0x5E7F, 0x4E1C, 0x58, 0x58, 0x6709, 0x9650, 0x516C, 0x53F8]"

definition rec_gd :: raw where
  "rec_gd =
     [SCGGRQ \<mapsto> PStr (ascii ''2024-05-06 00:00:00''), SCODE \<mapsto> PStr (ascii ''000001''),
      SNAME \<mapsto> PNone, OBJTYPE \<mapsto> PStr (ascii ''1''), G_GOMNAME \<mapsto> PStr gd_name,
      JYJE \<mapsto> PStr (ascii ''1234567.5''), ZRFS \<mapsto> PStr (ascii ''NONE''),
      ANNOUNDATE \<mapsto> PStr (ascii ''2024-05-06 00:00:00'')]"

definition rec_old :: raw where
  "rec_old = [SCGGRQ \<mapsto> PStr (ascii ''2024-05-05 00:00:00''), G_GOMNAME \<mapsto> PStr gd_name]"

definition rec_plain :: raw where
  "rec_plain =
     [SCGGRQ \<mapsto> PStr (ascii ''2024-05-06''), SCODE \<mapsto> PInt 600000,
      G_GOMNAME \<mapsto> PStr (ascii ''Acme Ltd''), JYJE \<mapsto> PStr (ascii ''n/a''),
      BZNAME \<mapsto> PStr (ascii ''   '')]"

definition row_gd :: "int \<Rightarrow> row" where
  "row_gd k =
     [(k_serial, PInt k), (k_amount, PStr (ascii ''1,234,567.50'')),
      (k_code, PStr (ascii ''000001'')), (k_name, dash),
      (k_related_sep, PStr (links_sep (ascii ''000001''))),
      (k_related_br, PStr (links_br (ascii ''000001''))),
      (k_target, dash), (k_seller, PStr gd_name), (k_buyer, dash), (k_currency, dash),
      (k_method, dash), (k_announce, PStr (ascii ''2024-05-06''))]"

definition row_plain :: "int \<Rightarrow> row" where
  "row_plain k =
     [(k_serial, PInt k), (k_amount, dash), (k_code, PInt 600000), (k_name, dash),
      (k_related_sep, dash), (k_related_br, dash), (k_target, dash),
      (k_seller, PStr (ascii ''Acme Ltd'')), (k_buyer, dash), (k_currency, dash),
      (k_method, dash), (k_announce, dash)]"


definition rec_null_date :: raw where
  "rec_null_date = [SCGGRQ \<mapsto> PNone]"

definition rec_bad_announce :: raw where
  "rec_bad_announce = [SCGGRQ \<mapsto> PStr (ascii ''2024-05-06''), ANNOUNDATE \<mapsto> PInt 20240506]"

text \<open>A feed that holds only the record of the day before, with every collaborator working.\<close>

definition env0 :: env where
  "env0 =
     \<lparr>fetch_result = [rec_old], clock_today = today0, clock_compact = ascii ''20240506'',
      render_ok = True, pdf_ok = True, deliver_ok = (\<lambda>path. True)\<rparr>"

text \<open>
  A grouping for the examples: every distinct value of the column with the number of
  times it occurs.
\<close>

definition tally :: "pyval list \<Rightarrow> (pyval \<times> nat) list" where
  "tally col = map (\<lambda>v. (v, count_list col v)) (remdups col)"

section \<open>Basic facts\<close>

lemmas key_defs = SCGGRQ_def SCODE_def SNAME_def OBJTYPE_def H_COMNAME_def G_GOMNAME_def
  S_COMNAME_def JYJE_def BZNAME_def ZRFS_def ANNOUNDATE_def k_serial_def k_code_def k_name_def
  k_related_def k_target_def k_seller_def k_buyer_def k_amount_def k_currency_def k_method_def
  k_announce_def k_related_sep_def k_related_br_def

lemma key_neqs:
  "SCODE \<noteq> JYJE" "SCODE \<noteq> OBJTYPE" "SCODE \<noteq> ANNOUNDATE"
  "SNAME \<noteq> JYJE" "SNAME \<noteq> OBJTYPE" "SNAME \<noteq> ANNOUNDATE"
  "OBJTYPE \<noteq> JYJE"
  "H_COMNAME \<noteq> JYJE" "H_COMNAME \<noteq> OBJTYPE" "H_COMNAME \<noteq> ANNOUNDATE"
  "G_GOMNAME \<noteq> JYJE" "G_GOMNAME \<noteq> OBJTYPE" "G_GOMNAME \<noteq> ANNOUNDATE"
  "S_COMNAME \<noteq> JYJE" "S_COMNAME \<noteq> OBJTYPE" "S_COMNAME \<noteq> ANNOUNDATE"
  "BZNAME \<noteq> JYJE" "BZNAME \<noteq> OBJTYPE" "BZNAME \<noteq> ANNOUNDATE"
  "ZRFS \<noteq> JYJE" "ZRFS \<noteq> OBJTYPE" "ZRFS \<noteq> ANNOUNDATE"
  "ANNOUNDATE \<noteq> JYJE" "ANNOUNDATE \<noteq> OBJTYPE"
  by (simp_all add: key_defs ascii_def)

lemma report_keys_distinct:
  "distinct [k_serial, k_amount, k_code, k_name, k_related_sep, k_related_br, k_target,
     k_seller, k_buyer, k_currency, k_method, k_announce, k_related]"
  by (simp add: key_defs)

lemma digits_small: "n < 10 \<Longrightarrow> digits n = [0x30 + n]"
  by (simp add: digits.simps)

lemma digits_big: "\<not> n < 10 \<Longrightarrow> digits n = digits (n div 10) @ [0x30 + n mod 10]"
  by (subst digits.simps) simp

lemma group3_small: "n < 1000 \<Longrightarrow> group3 n = digits n"
  by (simp add: group3.simps)

lemma group3_big:
  "\<not> n < 1000 \<Longrightarrow> group3 n = group3 (n div 1000) @ ascii '','' @ pad3 (n mod 1000)"
  by (subst group3.simps) simp

lemma bit_length_0: "bit_length 0 = 0"
  by (simp add: bit_length.simps)

lemma bit_length_pos: "0 < n \<Longrightarrow> bit_length n = Suc (bit_length (n div 2))"
  by (subst bit_length.simps) simp

subsection \<open>The row of a record, in closed form\<close>

lemma map_field_plain:
  "api \<noteq> JYJE \<Longrightarrow> api \<noteq> OBJTYPE \<Longrightarrow> api \<noteq> ANNOUNDATE \<Longrightarrow>
   map_field fr item sc (api, rf) r = Inr (AList.update rf (coerced fr item api) r)"
  by (simp add: map_field_def)

lemma map_field_amount:
  "map_field fr item sc (JYJE, rf) r =
     Inr (if coerced fr item JYJE = dash then r else AList.update rf (amount_cell fr item) r)"
  by (simp add: map_field_def amount_cell_def split: sum.splits)

lemma map_field_links:
  "map_field fr item (stock_code_of item) (OBJTYPE, rf) r =
     Inr (AList.update k_related_br (links_cell links_br fr item)
           (AList.update k_related_sep (links_cell links_sep fr item) r))"
  by (simp add: map_field_def links_cell_def key_neqs)

lemma map_field_date:
  "map_field fr item sc (ANNOUNDATE, rf) r =
     (case coerced fr item ANNOUNDATE of
        PStr s \<Rightarrow> Inr (AList.update rf (PStr (take 10 s)) r)
      | _ \<Rightarrow> Inl TypeError)"
  by (auto simp add: map_field_def key_neqs dash_def ascii_def split: pyval.splits)

lemma amount_cell_dash: "coerced fr item JYJE = dash \<Longrightarrow> amount_cell fr item = dash"
  by (simp add: amount_cell_def)

lemma build_row_eq:
  "build_row fr sn item =
     (case coerced fr item ANNOUNDATE of
        PStr s \<Rightarrow>
          Inr [(k_serial, PInt sn), (k_amount, amount_cell fr item),
               (k_code, coerced fr item SCODE), (k_name, coerced fr item SNAME),
               (k_related_sep, links_cell links_sep fr item),
               (k_related_br, links_cell links_br fr item),
               (k_target, coerced fr item H_COMNAME), (k_seller, coerced fr item G_GOMNAME),
               (k_buyer, coerced fr item S_COMNAME), (k_currency, coerced fr item BZNAME),
               (k_method, coerced fr item ZRFS), (k_announce, PStr (take 10 s))]
      | _ \<Rightarrow> Inl TypeError)"
proof -
  note rk = report_keys_distinct [simplified]
  show ?thesis
    unfolding build_row_def field_mapping_def
    using rk
    by (cases "coerced fr item ANNOUNDATE")
       (simp_all add: map_field_plain map_field_amount map_field_links map_field_date
          key_neqs amount_cell_dash eq_commute [of k_amount])
qed

subsection \<open>The loop and the list of cases\<close>

lemma process_loop_cases:
  "process_loop fr td raws sn pd cs =
     (fst (process_loop fr td raws sn pd []), cs @ snd (process_loop fr td raws sn pd []))"
proof (induction raws arbitrary: sn pd cs)
  case Nil
  show ?case by simp
next
  case (Cons item rest)
  note IH = Cons.IH
  show ?case
  proof (cases "item_date item")
    case (Inl err)
    then show ?thesis by simp
  next
    case (Inr d)
    show ?thesis
    proof (cases "d = td")
      case False
      with Inr show ?thesis using IH [of sn pd cs] by simp
    next
      case True
      show ?thesis
      proof (cases "build_row fr sn item")
        case (Inl err)
        with Inr True show ?thesis by simp
      next
        case r: (Inr r)
        show ?thesis
        proof (cases "is_guangdong_row r")
          case (Inl err)
          with Inr True r show ?thesis by simp
        next
          case g: (Inr b)
          show ?thesis
          proof (cases b)
            case False
            with Inr True r g show ?thesis using IH [of "sn + 1" "pd @ [r]" cs] by simp
          next
            case b: True
            show ?thesis
            proof (cases "case_data r")
              case (Inl err)
              with Inr True r g b show ?thesis by simp
            next
              case c: (Inr c)
              have "process_loop fr td rest (sn + 1) (pd @ [r]) (cs @ [c]) =
                      (fst (process_loop fr td rest (sn + 1) (pd @ [r]) []),
                       (cs @ [c]) @ snd (process_loop fr td rest (sn + 1) (pd @ [r]) []))"
                by (rule IH)
              moreover have "process_loop fr td rest (sn + 1) (pd @ [r]) [c] =
                      (fst (process_loop fr td rest (sn + 1) (pd @ [r]) []),
                       [c] @ snd (process_loop fr td rest (sn + 1) (pd @ [r]) []))"
                by (rule IH)
              ultimately show ?thesis using Inr True r g b c by simp
            qed
          qed
        qed
      qed
    qed
  qed
qed

lemma process_cases_append:
  "guangdong_cases (snd (process fr p raws)) =
     guangdong_cases p @ guangdong_cases (snd (process fr (p\<lparr>guangdong_cases := []\<rparr>) raws))"
proof (cases "raws = []")
  case True
  then show ?thesis by (simp add: process_def)
next
  case False
  then show ?thesis
    using process_loop_cases [of fr "today p" raws 1 "[]" "guangdong_cases p"]
    by (simp add: process_def Let_def)
qed

subsection \<open>The loop, record by record\<close>

lemma any_keyword_in_iff: "any_keyword_in kws name = list_ex (\<lambda>kw. sublist kw name) kws"
  by (induction kws) auto

lemma is_guangdong_company_Inr: "is_guangdong_company v = Inr b \<Longrightarrow> b = names_match v"
  by (cases v) (auto simp add: names_match_def any_keyword_in_iff split: if_splits)

lemma is_guangdong_row_Inr: "is_guangdong_row r = Inr b \<Longrightarrow> b = region_row r"
  unfolding is_guangdong_row_def region_row_def
  by (auto split: sum.splits bool.splits dest: is_guangdong_company_Inr)

lemma enumerate_Cons_shift:
  "map (\<lambda>(i, it). f (sn + int i) it) (enumerate 0 (x # xs)) =
     f sn x # map (\<lambda>(i, it). f (sn + 1 + int i) it) (enumerate 0 xs)"
proof -
  have "enumerate (Suc 0) xs = map (\<lambda>(i, it). (Suc i, it)) (enumerate 0 xs)"
    by (simp add: enumerate_eq_zip map_Suc_upt [symmetric] zip_map1 del: upt_Suc)
  then show ?thesis
    by (simp add: case_prod_beta comp_def add.assoc)
qed

lemma process_loop_Inr:
  "process_loop fr td raws sn pd cs = (Inr rows, cs') \<Longrightarrow>
   \<exists>new tags. rows = pd @ new \<and> cs' = cs @ tags \<and>
     map Inr new =
       map (\<lambda>(i, it). build_row fr (sn + int i) it) (enumerate 0 (filter (retained td) raws)) \<and>
     map Inr tags = map case_data (filter region_row new)"
proof (induction raws arbitrary: sn pd cs)
  case Nil
  then show ?case by simp
next
  case (Cons item rest)
  from Cons.prems obtain d where d: "item_date item = Inr d"
    by (cases "item_date item") auto
  show ?case
  proof (cases "d = td")
    case False
    with d have nr: "\<not> retained td item" by (simp add: retained_def)
    from Cons.prems d False have "process_loop fr td rest sn pd cs = (Inr rows, cs')" by simp
    from Cons.IH [OF this] nr show ?thesis by simp
  next
    case True
    with d have ret: "retained td item" by (simp add: retained_def)
    from Cons.prems d True obtain r where r: "build_row fr sn item = Inr r"
      by (cases "build_row fr sn item") auto
    from Cons.prems d True r obtain b where b: "is_guangdong_row r = Inr b"
      by (cases "is_guangdong_row r") auto
    then have br: "b = region_row r" by (rule is_guangdong_row_Inr)
    show ?thesis
    proof (cases b)
      case False
      with Cons.prems d True r b
      have "process_loop fr td rest (sn + 1) (pd @ [r]) cs = (Inr rows, cs')" by simp
      from Cons.IH [OF this] obtain new tags where
        *: "rows = (pd @ [r]) @ new" "cs' = cs @ tags"
           "map Inr new = map (\<lambda>(i, it). build_row fr (sn + 1 + int i) it)
              (enumerate 0 (filter (retained td) rest))"
           "map Inr tags = map case_data (filter region_row new)"
        by blast
      have "map Inr (r # new) = map (\<lambda>(i, it). build_row fr (sn + int i) it)
              (enumerate 0 (filter (retained td) (item # rest)))"
        using ret r *(3) by (simp only: filter.simps if_True enumerate_Cons_shift list.map)
      moreover have "map Inr tags = map case_data (filter region_row (r # new))"
        using *(4) False br by simp
      ultimately show ?thesis using *(1,2) by (intro exI [of _ "r # new"] exI [of _ tags]) simp
    next
      case bt: True
      from Cons.prems d True r b bt obtain c where c: "case_data r = Inr c"
        by (cases "case_data r") auto
      with Cons.prems d True r b bt
      have "process_loop fr td rest (sn + 1) (pd @ [r]) (cs @ [c]) = (Inr rows, cs')" by simp
      from Cons.IH [OF this] obtain new tags where
        *: "rows = (pd @ [r]) @ new" "cs' = (cs @ [c]) @ tags"
           "map Inr new = map (\<lambda>(i, it). build_row fr (sn + 1 + int i) it)
              (enumerate 0 (filter (retained td) rest))"
           "map Inr tags = map case_data (filter region_row new)"
        by blast
      have "map Inr (r # new) = map (\<lambda>(i, it). build_row fr (sn + int i) it)
              (enumerate 0 (filter (retained td) (item # rest)))"
        using ret r *(3) by (simp only: filter.simps if_True enumerate_Cons_shift list.map)
      moreover have "map Inr (c # tags) = map case_data (filter region_row (r # new))"
        using *(4) bt br c by simp
      ultimately show ?thesis using *(1,2) by (intro exI [of _ "r # new"] exI [of _ "c # tags"]) simp
    qed
  qed
qed


subsection \<open>The example records evaluated\<close>

lemmas eval_defs = coerced_def is_missing_def py_strip_def py_isspace_def py_lower_def
  ascii_lower_def dash_def ascii_def key_defs stock_code_of_def

lemma float_of_str_example:
  "float_of_str (ascii ''1234567.5'') = Inr (Finite False 5302427037204480 (- 32))"
  by (simp add: float_of_str_def to_ascii_def c_isspace_def is_digit_def py_lower_def
      ascii_lower_def ascii_def parse_decimal_def digits_value_def to_double_def
      floor_log2_def bit_length_0 bit_length_pos round_half_even_def Let_def)

lemma format_2f_example:
  "format_2f (Finite False 5302427037204480 (- 32)) = ascii ''1,234,567.50''"
  by (simp add: hundredths_def round_half_even_def group3_small group3_big digits_small
      digits_big pad3_def ascii_def)

lemma float_of_str_bad: "float_of_str (ascii ''n/a'') = Inl ValueError"
  by (simp add: float_of_str_def to_ascii_def c_isspace_def is_digit_def py_lower_def
      ascii_lower_def ascii_def parse_decimal_def digits_value_def Let_def)

lemma coerced_gd:
  "coerced fr rec_gd SCODE = PStr (ascii ''000001'')" "coerced fr rec_gd SNAME = dash"
  "coerced fr rec_gd OBJTYPE = PStr (ascii ''1'')" "coerced fr rec_gd H_COMNAME = dash"
  "coerced fr rec_gd G_GOMNAME = PStr gd_name" "coerced fr rec_gd S_COMNAME = dash"
  "coerced fr rec_gd JYJE = PStr (ascii ''1234567.5'')" "coerced fr rec_gd BZNAME = dash"
  "coerced fr rec_gd ZRFS = dash"
  "coerced fr rec_gd ANNOUNDATE = PStr (ascii ''2024-05-06 00:00:00'')"
  by (simp_all add: rec_gd_def gd_name_def eval_defs)

lemma build_row_gd: "build_row fr k rec_gd = Inr (row_gd k)"
proof -
  have ne: "PStr (ascii ''1234567.5'') \<noteq> dash" "PStr (ascii ''1'') \<noteq> dash"
    by (simp_all add: dash_def ascii_def)
  have a: "amount_cell fr rec_gd = PStr (ascii ''1,234,567.50'')"
    by (simp add: amount_cell_def coerced_gd ne float_of_str_example format_2f_example
        del: format_2f.simps)
  have sc: "stock_code_of rec_gd = PStr (ascii ''000001'')"
    by (simp add: stock_code_of_def rec_gd_def key_defs ascii_def)
  have l: "links_cell render fr rec_gd = PStr (render (ascii ''000001''))" for render
    by (simp add: links_cell_def sc coerced_gd ne) (simp add: ascii_def)
  have t: "take 10 (ascii ''2024-05-06 00:00:00'') = ascii ''2024-05-06''"
    by (simp add: ascii_def)
  show ?thesis
    by (simp add: build_row_eq coerced_gd a l t row_gd_def)
qed

lemma coerced_plain:
  "coerced fr rec_plain SCODE = PInt 600000" "coerced fr rec_plain SNAME = dash"
  "coerced fr rec_plain OBJTYPE = dash" "coerced fr rec_plain H_COMNAME = dash"
  "coerced fr rec_plain G_GOMNAME = PStr (ascii ''Acme Ltd'')"
  "coerced fr rec_plain S_COMNAME = dash"
  "coerced fr rec_plain JYJE = PStr (ascii ''n/a'')" "coerced fr rec_plain BZNAME = dash"
  "coerced fr rec_plain ZRFS = dash" "coerced fr rec_plain ANNOUNDATE = PStr (ascii ''-'')"
  by (simp_all add: rec_plain_def eval_defs str_int_def digits_small digits_big)

lemma build_row_plain: "build_row fr k rec_plain = Inr (row_plain k)"
proof -
  have ne: "PStr (ascii ''n/a'') \<noteq> dash"
    by (simp add: dash_def ascii_def)
  have a: "amount_cell fr rec_plain = dash"
    by (simp add: amount_cell_def coerced_plain ne float_of_str_bad)
  have l: "links_cell render fr rec_plain = dash" for render
    by (simp add: links_cell_def coerced_plain)
  have t: "PStr (take 10 (ascii ''-'')) = dash"
    by (simp add: dash_def ascii_def)
  show ?thesis
    by (simp add: build_row_eq coerced_plain a l t row_plain_def)
qed

lemma item_date_examples:
  "item_date rec_gd = Inr today0" "item_date rec_plain = Inr today0"
  "item_date rec_old = Inr (ascii ''2024-05-05'')" "ascii ''2024-05-05'' \<noteq> today0"
  by (simp_all add: item_date_def rec_gd_def rec_plain_def rec_old_def today0_def key_defs
      ascii_def)

lemma sublist_gd: "sublist [0x5E7F, 0x4E1C] gd_name"
  by (simp add: gd_name_def sublist_Cons_right)

lemma region_examples:
  "is_guangdong_row (row_gd k) = Inr True" "is_guangdong_row (row_plain k) = Inr False"
  "case_data (row_gd k) = Inr (AList.update k_related (PStr (links_sep (ascii ''000001''))) (row_gd k))"
  by (simp_all add: is_guangdong_row_def get_or_empty_def row_gd_def row_plain_def
      case_data_def report_keys_distinct [simplified] gd_keywords_def sublist_gd [simplified]
      gd_name_def dash_def ascii_def sublist_Cons_right key_defs)

lemma process_example:
  "process fr \<lparr>today = today0, guangdong_cases = cs\<rparr> [rec_gd, rec_old, rec_plain] =
     (Inr [row_gd 1, row_plain 2],
      \<lparr>today = today0,
       guangdong_cases =
         cs @ [AList.update k_related (PStr (links_sep (ascii ''000001''))) (row_gd 1)]\<rparr>)"
  by (simp add: process_def item_date_examples build_row_gd build_row_plain region_examples)

subsection \<open>Rows and tagged copies\<close>

lemma build_row_serial: "build_row fr sn item = Inr r \<Longrightarrow> map_of r k_serial = Some (PInt sn)"
  by (auto simp add: build_row_eq split: pyval.splits)

lemma case_data_related:
  "case_data r = Inr c \<Longrightarrow>
   map_of c k_related_sep \<noteq> None \<and> map_of c k_related = map_of c k_related_sep"
  using report_keys_distinct
  by (auto simp add: case_data_def update_conv' split: option.splits)

lemma case_data_all_related:
  "map Inr tags = map case_data rs \<Longrightarrow>
   list_all (\<lambda>c. map_of c k_related_sep \<noteq> None \<and> map_of c k_related = map_of c k_related_sep) tags"
proof (induction tags arbitrary: rs)
  case Nil
  show ?case by simp
next
  case (Cons c tags)
  then obtain r rs' where rs: "rs = r # rs'" by (cases rs) auto
  with Cons.prems have c: "case_data r = Inr c" and t: "map Inr tags = map case_data rs'"
    by auto
  from case_data_related [OF c] Cons.IH [OF t] show ?case by simp
qed

lemma retained_examples:
  "filter (retained today0) [rec_gd, rec_old, rec_plain] = [rec_gd, rec_plain]"
  by (simp add: retained_def item_date_examples)

lemma region_row_examples: "region_row (row_gd k)" "\<not> region_row (row_plain k)"
  using is_guangdong_row_Inr [OF region_examples(1), of k]
    is_guangdong_row_Inr [OF region_examples(2), of k] by simp_all

subsection \<open>Missing values and the cells of a row\<close>

lemma coerced_missing: "value_missing (item k) \<Longrightarrow> coerced fr item k = dash"
proof (cases "item k")
  case None
  then show ?thesis by (simp add: coerced_def)
next
  case (Some v)
  assume "value_missing (item k)"
  with Some show ?thesis
    by (cases v) (auto simp add: coerced_def is_missing_def)
qed

lemma links_cell_missing: "coerced fr item OBJTYPE = dash \<Longrightarrow> links_cell render fr item = dash"
  by (simp add: links_cell_def)

lemma build_row_InrD:
  assumes "build_row fr sn item = Inr r"
  obtains s where "coerced fr item ANNOUNDATE = PStr s"
    and "r = [(k_serial, PInt sn), (k_amount, amount_cell fr item),
               (k_code, coerced fr item SCODE), (k_name, coerced fr item SNAME),
               (k_related_sep, links_cell links_sep fr item),
               (k_related_br, links_cell links_br fr item),
               (k_target, coerced fr item H_COMNAME), (k_seller, coerced fr item G_GOMNAME),
               (k_buyer, coerced fr item S_COMNAME), (k_currency, coerced fr item BZNAME),
               (k_method, coerced fr item ZRFS), (k_announce, PStr (take 10 s))]"
  using assms by (auto simp add: build_row_eq split: pyval.splits)

lemma missing_cells:
  assumes "build_row fr sn item = Inr r" "(api, rf) \<in> set field_mapping" "value_missing (item api)"
  shows "if api = OBJTYPE
         then map_of r k_related_sep = Some dash \<and> map_of r k_related_br = Some dash
         else map_of r rf = Some dash"
proof -
  note c = coerced_missing [where item = item and k = api and fr = fr, OF assms(3)]
  from assms(1) obtain s where s: "coerced fr item ANNOUNDATE = PStr s"
    and r: "r = [(k_serial, PInt sn), (k_amount, amount_cell fr item),
               (k_code, coerced fr item SCODE), (k_name, coerced fr item SNAME),
               (k_related_sep, links_cell links_sep fr item),
               (k_related_br, links_cell links_br fr item),
               (k_target, coerced fr item H_COMNAME), (k_seller, coerced fr item G_GOMNAME),
               (k_buyer, coerced fr item S_COMNAME), (k_currency, coerced fr item BZNAME),
               (k_method, coerced fr item ZRFS), (k_announce, PStr (take 10 s))]"
    by (rule build_row_InrD)
  have d: "PStr (take 10 (ascii ''-'')) = dash" by (simp add: dash_def ascii_def)
  from assms(2) consider "api = SCODE" "rf = k_code" | "api = SNAME" "rf = k_name"
    | "api = OBJTYPE" | "api = H_COMNAME" "rf = k_target" | "api = G_GOMNAME" "rf = k_seller"
    | "api = S_COMNAME" "rf = k_buyer" | "api = JYJE" "rf = k_amount"
    | "api = BZNAME" "rf = k_currency" | "api = ZRFS" "rf = k_method"
    | "api = ANNOUNDATE" "rf = k_announce"
    by (auto simp add: field_mapping_def)
  then show ?thesis
  proof cases
    case 1
    with c have "coerced fr item SCODE = dash" by simp
    with 1 r show ?thesis by (simp add: key_defs ascii_def)
  next
    case 2
    with c have "coerced fr item SNAME = dash" by simp
    with 2 r show ?thesis by (simp add: key_defs ascii_def)
  next
    case 3
    with c have "links_cell links_sep fr item = dash" "links_cell links_br fr item = dash"
      by (simp_all add: links_cell_missing)
    with 3 r show ?thesis by (simp add: key_defs)
  next
    case 4
    with c have "coerced fr item H_COMNAME = dash" by simp
    with 4 r show ?thesis by (simp add: key_defs ascii_def)
  next
    case 5
    with c have "coerced fr item G_GOMNAME = dash" by simp
    with 5 r show ?thesis by (simp add: key_defs ascii_def)
  next
    case 6
    with c have "coerced fr item S_COMNAME = dash" by simp
    with 6 r show ?thesis by (simp add: key_defs ascii_def)
  next
    case 7
    with c have "amount_cell fr item = dash" by (simp add: amount_cell_dash)
    with 7 r show ?thesis by (simp add: key_defs ascii_def)
  next
    case 8
    with c have "coerced fr item BZNAME = dash" by simp
    with 8 r show ?thesis by (simp add: key_defs ascii_def)
  next
    case 9
    with c have "coerced fr item ZRFS = dash" by simp
    with 9 r show ?thesis by (simp add: key_defs ascii_def)
  next
    case 10
    with c s have "s = ascii ''-''" by (simp add: dash_def)
    with d have "PStr (take 10 s) = dash" by simp
    with 10 r show ?thesis by (simp add: key_defs ascii_def)
  qed
qed

lemma row_has_no_related: "build_row fr sn item = Inr r \<Longrightarrow> map_of r k_related = None"
  by (erule build_row_InrD) (simp add: key_defs)

lemma dash_not_null: "dash \<noteq> PNone" "dash \<noteq> PStr []"
  by (simp_all add: dash_def ascii_def)

lemma coerced_not_null: "coerced fr item k \<noteq> PNone" "coerced fr item k \<noteq> PStr []"
proof -
  have "coerced fr item k \<noteq> PNone \<and> coerced fr item k \<noteq> PStr []"
    by (auto simp add: coerced_def Let_def is_missing_def py_strip_def dash_not_null)
  then show "coerced fr item k \<noteq> PNone" "coerced fr item k \<noteq> PStr []" by simp_all
qed

lemma format_2f_not_empty: "format_2f f \<noteq> []"
  by (cases f) (simp_all add: Let_def ascii_def)

lemma amount_cell_not_null: "amount_cell fr item \<noteq> PNone" "amount_cell fr item \<noteq> PStr []"
  by (simp_all add: amount_cell_def dash_not_null format_2f_not_empty split: sum.splits)

lemma links_cell_not_null:
  "links_cell links_sep fr item \<noteq> PNone" "links_cell links_sep fr item \<noteq> PStr []"
  "links_cell links_br fr item \<noteq> PNone" "links_cell links_br fr item \<noteq> PStr []"
  by (simp_all add: links_cell_def dash_not_null links_sep_def links_br_def anchor_def ascii_def)

lemma build_row_bad_announce: "build_row fr k rec_bad_announce = Inl TypeError"
proof -
  have "coerced fr rec_bad_announce ANNOUNDATE = PInt 20240506"
    by (simp add: rec_bad_announce_def eval_defs str_int_def digits_small digits_big)
  then show ?thesis by (simp add: build_row_eq)
qed

subsection \<open>The shape of a formatted amount\<close>

lemma is_digit_add: "n < 10 \<Longrightarrow> is_digit (0x30 + n)"
  by (simp add: is_digit_def)

lemma digits_props: "digits n \<noteq> [] \<and> list_all is_digit (digits n)"
proof (induction n rule: digits.induct)
  case (1 n)
  show ?case
  proof (cases "n < 10")
    case True
    then show ?thesis by (simp add: digits_small is_digit_add)
  next
    case False
    with 1 show ?thesis by (simp add: digits_big is_digit_add)
  qed
qed

lemma digits_length: "n < 1000 \<Longrightarrow> length (digits n) \<le> 3"
proof -
  assume n: "n < 1000"
  show ?thesis
  proof (cases "n < 10")
    case True
    then show ?thesis by (simp add: digits_small)
  next
    case False
    show ?thesis
    proof (cases "n < 100")
      case True
      then have "n div 10 < 10" by simp
      with False show ?thesis by (simp add: digits_big digits_small)
    next
      case f2: False
      from n have "n div 10 div 10 < 10" by simp
      moreover from f2 have "\<not> n div 10 < 10" by simp
      ultimately show ?thesis using False by (simp add: digits_big digits_small)
    qed
  qed
qed

lemma rev_grouped_short:
  "ds \<noteq> [] \<Longrightarrow> length ds \<le> 3 \<Longrightarrow> list_all is_digit ds \<Longrightarrow> rev_grouped ds"
  by (cases ds rule: rev_grouped.cases) simp_all

lemma rev_grouped_group3: "rev_grouped (rev (group3 n))"
proof (induction n rule: group3.induct)
  case (1 n)
  show ?case
  proof (cases "n < 1000")
    case True
    with digits_props [of n] digits_length [of n] show ?thesis
      by (simp add: group3_small rev_grouped_short)
  next
    case False
    with 1 show ?thesis
      by (simp add: group3_big pad3_def ascii_def is_digit_add)
  qed
qed

lemma group3_head: "group3 n \<noteq> [] \<and> is_digit (hd (group3 n))"
proof (induction n rule: group3.induct)
  case (1 n)
  show ?case
  proof (cases "n < 1000")
    case True
    with digits_props [of n] show ?thesis
      by (cases "digits n") (simp_all add: group3_small)
  next
    case False
    with 1 show ?thesis by (simp add: group3_big)
  qed
qed

lemma grouped_2dp_tail:
  assumes "g \<noteq> []" "hd g \<noteq> 0x2D" "rev_grouped (rev g)" "is_digit d1" "is_digit d2"
  shows "grouped_2dp (g @ [0x2E, d1, d2])" "grouped_2dp (0x2D # g @ [0x2E, d1, d2])"
  using assms by (simp_all add: grouped_2dp_def Let_def nth_append)

lemma grouped_2dp_finite: "grouped_2dp (format_2f (Finite s m e))"
proof -
  let ?n = "hundredths m e"
  let ?g = "group3 (?n div 100)"
  have g: "?g \<noteq> []" "hd ?g \<noteq> 0x2D"
    using group3_head [of "?n div 100"] by (auto simp add: is_digit_def)
  have d: "is_digit (0x30 + ?n div 10 mod 10)" "is_digit (0x30 + ?n mod 10)"
    by (simp_all add: is_digit_add)
  from grouped_2dp_tail [OF g rev_grouped_group3 d] show ?thesis
    by (cases s) (simp_all add: Let_def ascii_def)
qed






lemma grouped_example: "grouped_2dp (ascii ''1,234,567.50'')"
  using grouped_2dp_finite [of False 5302427037204480 "- 32"]
  by (simp only: format_2f_example)



subsection \<open>The loop over the heap\<close>

lemma classify_eq:
  "a < length h \<Longrightarrow>
   classify h a cs =
     (case is_guangdong_row (h ! a) of
        Inl err \<Rightarrow> (Inl err, h, cs)
      | Inr False \<Rightarrow> (Inr (), h, cs)
      | Inr True \<Rightarrow>
          (case case_data (h ! a) of
             Inl err \<Rightarrow> (Inl err, h @ [h ! a], cs)
           | Inr c \<Rightarrow> (Inr (), h @ [c], cs @ [length h])))"
  by (simp add: classify_def alloc_def case_data_def Let_def
      split: sum.splits bool.splits option.splits)

lemma deref_prefix: "valid h as \<Longrightarrow> deref (h @ ext) as = deref h as"
  by (induction as) (simp_all add: deref_def valid_def nth_append)

lemma valid_prefix: "valid h as \<Longrightarrow> valid (h @ ext) as"
  by (induction as) (simp_all add: valid_def)

lemma valid_snoc: "valid h as \<Longrightarrow> valid (h @ [r]) (as @ [length h])"
  by (auto simp add: valid_def list_all_iff)

lemma deref_snoc: "valid h as \<Longrightarrow> deref (h @ [r]) (as @ [length h]) = deref h as @ [r]"
  using deref_prefix [of h as "[r]"] by (simp add: deref_def)

lemma valid_not_fresh: "valid h as \<Longrightarrow> length h \<notin> set as"
  by (auto simp add: valid_def list_all_iff)


lemma process_heap_loop_refines:
  "valid h pd \<Longrightarrow> valid h cs \<Longrightarrow> set pd \<inter> set cs = {} \<Longrightarrow>
   process_heap_loop fr td raws sn h pd cs = (res, h', cs') \<Longrightarrow>
   prefix h h' \<and> valid h' cs' \<and>
   process_loop fr td raws sn (deref h pd) (deref h cs) = ((case res of Inl err \<Rightarrow> Inl err | Inr pd' \<Rightarrow> Inr (deref h' pd')), deref h' cs') \<and>
   (case res of Inl err \<Rightarrow> True | Inr pd' \<Rightarrow> valid h' pd' \<and> set pd' \<inter> set cs' = {})"
proof (induction raws arbitrary: sn h pd cs)
  case Nil
  then show ?case by auto
next
  case (Cons item rest)
  note v = Cons.prems(1,2) and dj = Cons.prems(3) and run = Cons.prems(4)
  show ?case
  proof (cases "item_date item")
    case (Inl err)
    with run have "res = Inl err" "h' = h" "cs' = cs" by simp_all
    with Inl v show ?thesis by simp
  next
    case d: (Inr d)
    show ?thesis
    proof (cases "d = td")
      case False
      with run d have "process_heap_loop fr td rest sn h pd cs = (res, h', cs')" by simp
      from Cons.IH [OF v dj this] d False show ?thesis by simp
    next
      case True
      show ?thesis
      proof (cases "build_row fr sn item")
        case (Inl err)
        with run d True have "res = Inl err" "h' = h" "cs' = cs" by simp_all
        with Inl d True v show ?thesis by simp
      next
        case r: (Inr r)
        let ?h1 = "h @ [r]" and ?a = "length h"
        have a: "?a < length ?h1" and ha: "?h1 ! ?a = r" by simp_all
        have v1: "valid ?h1 (pd @ [?a])" "valid ?h1 cs"
          using v by (simp_all add: valid_snoc valid_prefix)
        have d1: "deref ?h1 (pd @ [?a]) = deref h pd @ [r]" "deref ?h1 cs = deref h cs"
          using v by (simp_all add: deref_snoc deref_prefix)
        have dj1: "set (pd @ [?a]) \<inter> set cs = {}"
          using dj valid_not_fresh [OF v(2)] by auto
        note ceq = classify_eq [OF a, of cs, unfolded ha]
        show ?thesis
        proof (cases "is_guangdong_row r")
          case (Inl err)
          with run d True r ceq have "res = Inl err" "h' = ?h1" "cs' = cs"
            by (simp_all add: alloc_def Let_def)
          with Inl d True r v1 d1 show ?thesis by simp
        next
          case g: (Inr b)
          show ?thesis
          proof (cases b)
            case False
            with run d True r g ceq
            have "process_heap_loop fr td rest (sn + 1) ?h1 (pd @ [?a]) cs = (res, h', cs')"
              by (simp add: alloc_def Let_def)
            from Cons.IH [OF v1 dj1 this] d True r g False show ?thesis
              by (auto simp add: d1 dest: append_prefixD)
          next
            case bt: True
            show ?thesis
            proof (cases "case_data r")
              case (Inl err)
              with run d True r g bt ceq have "res = Inl err" "h' = ?h1 @ [r]" "cs' = cs"
                by (simp_all add: alloc_def Let_def)
              moreover have "valid (h @ [r, r]) cs" "deref (h @ [r, r]) cs = deref h cs"
                using v(2) by (simp_all add: valid_prefix deref_prefix)
              ultimately show ?thesis using d True r g bt Inl by simp
            next
              case c: (Inr c)
              let ?h2 = "?h1 @ [c]" and ?ca = "length ?h1"
              from run d True r g bt ceq c
              have run2: "process_heap_loop fr td rest (sn + 1) ?h2 (pd @ [?a]) (cs @ [?ca]) =
                  (res, h', cs')"
                by (simp add: alloc_def Let_def)
              have v2: "valid ?h2 (pd @ [?a])" "valid ?h2 (cs @ [?ca])"
                using valid_prefix [OF v1(1), of "[c]"] valid_snoc [OF v1(2), of c] by simp_all
              have dj2: "set (pd @ [?a]) \<inter> set (cs @ [?ca]) = {}"
                using dj1 valid_not_fresh [OF v1(1)] by auto
              have IH: "prefix ?h2 h' \<and> valid h' cs' \<and>
                  process_loop fr td rest (sn + 1) (deref ?h2 (pd @ [?a])) (deref ?h2 (cs @ [?ca])) =
                    ((case res of Inl err \<Rightarrow> Inl err | Inr pd' \<Rightarrow> Inr (deref h' pd')), deref h' cs') \<and>
                  (case res of Inl err \<Rightarrow> True | Inr pd' \<Rightarrow> valid h' pd' \<and> set pd' \<inter> set cs' = {})"
                by (rule Cons.IH [OF v2 dj2 run2])
              have d2: "deref (h @ [r, c]) (pd @ [length h]) = deref h pd @ [r]"
                "deref (h @ [r, c]) (cs @ [Suc (length h)]) = deref h cs @ [c]"
                using deref_prefix [OF v1(1), of "[c]"] deref_snoc [OF v1(2), of c] d1
                by simp_all
              from IH have "prefix h h'" by (auto dest: append_prefixD)
              with IH d True r g bt c show ?thesis by (simp add: d2)
            qed
          qed
        qed
      qed
    qed
  qed
qed


lemma process_heap_example:
  "process_heap_loop no_repr today0 [rec_gd, rec_old, rec_plain] 1 [] [] [] =
     (Inr [0, 2],
      [row_gd 1, AList.update k_related (PStr (links_sep (ascii ''000001''))) (row_gd 1),
       row_plain 2],
      [1])"
  by (simp add: item_date_examples build_row_gd build_row_plain alloc_def Let_def classify_eq
      region_examples)

lemma process_old: "process fr \<lparr>today = today0, guangdong_cases = []\<rparr> [rec_old] =
    (Inr [], \<lparr>today = today0, guangdong_cases = []\<rparr>)"
  by (simp add: process_def item_date_examples)

section \<open>The claims\<close>


text \<open>
  C1. For a retained record whose row is built, and a pair of the mapping
  table whose source value is missing (absent, null, blank, or the word none in any
  letter case): the row's field under the report name is the sentinel, for every source
  field but \<^verbatim>\<open>OBJTYPE\<close>; for \<^verbatim>\<open>OBJTYPE\<close> the two renderings are the sentinel and the row has
  no field under the mapped report name (related).
\<close>

theorem missing_gives_dash:
  "build_row fr sn item = Inr r \<Longrightarrow> (api_field, report_field) \<in> set field_mapping \<Longrightarrow>
   value_missing (item api_field) \<Longrightarrow>
   (if api_field = OBJTYPE
    then map_of r k_related_sep = Some dash \<and> map_of r k_related_br = Some dash \<and>
         map_of r k_related = None
    else map_of r report_field = Some dash)"
  using missing_cells [of fr sn item r api_field report_field] row_has_no_related [of fr sn item r]
  by (simp split: if_splits)


theorem missing_gives_dash_witness:
  "build_row no_repr 1 rec_gd = Inr (row_gd 1) \<and> (ZRFS, k_method) \<in> set field_mapping \<and>
   value_missing (rec_gd ZRFS) \<and> map_of (row_gd 1) k_method = Some dash"
proof -
  have h1: "build_row no_repr 1 rec_gd = Inr (row_gd 1)" by (rule build_row_gd)
  have h2: "(ZRFS, k_method) \<in> set field_mapping" by (simp add: field_mapping_def)
  have h3: "value_missing (rec_gd ZRFS)"
    by (simp add: rec_gd_def key_defs ascii_def py_lower_def ascii_lower_def)
  from missing_gives_dash [OF h1 h2 h3] have "map_of (row_gd 1) k_method = Some dash"
    by (simp add: key_neqs)
  with h1 h2 h3 show ?thesis by simp
qed

theorem related_field_counterexample:
  "(OBJTYPE, k_related) \<in> set field_mapping \<and> value_missing (rec_plain OBJTYPE) \<and>
   retained today0 rec_plain \<and> build_row no_repr 2 rec_plain = Inr (row_plain 2) \<and>
   map_of (row_plain 2) k_related \<noteq> Some dash"
proof -
  have "value_missing (rec_plain OBJTYPE)"
    by (simp add: rec_plain_def key_defs ascii_def)
  moreover have "map_of (row_plain 2) k_related = None"
    by (simp add: row_plain_def key_defs)
  ultimately show ?thesis
    by (simp add: field_mapping_def retained_def item_date_examples build_row_plain)
qed

text \<open>
  C2. When \<^verbatim>\<open>process\<close> returns, its rows are, in feed order, the rows built from exactly
  the records whose disclosure date (first ten code points) is the target date, the
  \<open>i\<close>-th of them built with serial number \<open>i\<close>; so the serial numbers of the rows are
  1, 2, 3, ... without gaps, counting retained records only.
\<close>

theorem process_retains_in_order:
  "process fr p raw_data = (Inr rows, p') \<Longrightarrow>
   map Inr rows =
     map (\<lambda>(i, item). build_row fr (1 + int i) item)
       (enumerate 0 (filter (retained (today p)) raw_data)) \<and>
   map (\<lambda>r. map_of r k_serial) rows = map (\<lambda>i. Some (PInt (1 + int i))) [0..<length rows]"
proof -
  assume run: "process fr p raw_data = (Inr rows, p')"
  let ?kept = "filter (retained (today p)) raw_data"
  have built: "map Inr rows = map (\<lambda>(i, item). build_row fr (1 + int i) item) (enumerate 0 ?kept)"
  proof (cases "raw_data = []")
    case True
    with run show ?thesis by (simp add: process_def)
  next
    case False
    with run have "process_loop fr (today p) raw_data 1 [] (guangdong_cases p) =
        (Inr rows, guangdong_cases p')"
      by (auto simp add: process_def Let_def prod_eq_iff)
    from process_loop_Inr [OF this] show ?thesis by auto
  qed
  have len: "length rows = length ?kept"
    using arg_cong [OF built, of length] by simp
  have "map_of (rows ! i) k_serial = Some (PInt (1 + int i))" if "i < length rows" for i
  proof -
    from that len have "map Inr rows ! i = build_row fr (1 + int i) (?kept ! i)"
      by (simp only: built) (simp add: nth_enumerate_eq)
    with that have "build_row fr (1 + int i) (?kept ! i) = Inr (rows ! i)" by simp
    then show ?thesis by (rule build_row_serial)
  qed
  then have "map (\<lambda>r. map_of r k_serial) rows = map (\<lambda>i. Some (PInt (1 + int i))) [0..<length rows]"
    by (intro nth_equalityI) simp_all
  with built show ?thesis by simp
qed

theorem process_retains_witness:
  "process no_repr \<lparr>today = today0, guangdong_cases = []\<rparr> [rec_gd, rec_old, rec_plain] =
     (Inr [row_gd 1, row_plain 2],
      \<lparr>today = today0,
       guangdong_cases =
         [AList.update k_related (PStr (links_sep (ascii ''000001''))) (row_gd 1)]\<rparr>) \<and>
   filter (retained today0) [rec_gd, rec_old, rec_plain] = [rec_gd, rec_plain] \<and>
   map (\<lambda>r. map_of r k_serial) [row_gd 1, row_plain 2] = [Some (PInt 1), Some (PInt 2)]"
proof -
  have run: "process no_repr \<lparr>today = today0, guangdong_cases = []\<rparr> [rec_gd, rec_old, rec_plain] =
     (Inr [row_gd 1, row_plain 2],
      \<lparr>today = today0,
       guangdong_cases =
         [AList.update k_related (PStr (links_sep (ascii ''000001''))) (row_gd 1)]\<rparr>)"
    using process_example [of no_repr "[]"] by simp
  from process_retains_in_order [OF run]
  have "map (\<lambda>r. map_of r k_serial) [row_gd 1, row_plain 2] =
          map (\<lambda>i. Some (PInt (1 + int i))) [0..<length [row_gd 1, row_plain 2]]"
    by (rule conjunct2)
  then have "map (\<lambda>r. map_of r k_serial) [row_gd 1, row_plain 2] = [Some (PInt 1), Some (PInt 2)]"
    by (simp add: upt_rec)
  with run retained_examples show ?thesis by simp
qed




text \<open>
  C4. Every row that is built has exactly the keys serial number, amount,
  stock code, short name, the two renderings of the related links, target, seller,
  buyer, currency, method and announcement date; it has no related key. No value is
  null or the empty string, and a missing source value gives the sentinel.
\<close>

theorem row_fields_present:
  "build_row fr sn item = Inr r \<Longrightarrow>
   map fst r =
     [k_serial, k_amount, k_code, k_name, k_related_sep, k_related_br, k_target, k_seller,
      k_buyer, k_currency, k_method, k_announce] \<and>
   map_of r k_related = None \<and>
   list_all (\<lambda>(k, v). v \<noteq> PNone \<and> v \<noteq> PStr []) r \<and>
   ((api_field, report_field) \<in> set field_mapping \<and> api_field \<noteq> OBJTYPE \<and>
      value_missing (item api_field) \<longrightarrow> map_of r report_field = Some dash) \<and>
   (value_missing (item OBJTYPE) \<longrightarrow>
      map_of r k_related_sep = Some dash \<and> map_of r k_related_br = Some dash)"
proof -
  assume b: "build_row fr sn item = Inr r"
  then obtain s where s: "coerced fr item ANNOUNDATE = PStr s"
    and r: "r = [(k_serial, PInt sn), (k_amount, amount_cell fr item),
               (k_code, coerced fr item SCODE), (k_name, coerced fr item SNAME),
               (k_related_sep, links_cell links_sep fr item),
               (k_related_br, links_cell links_br fr item),
               (k_target, coerced fr item H_COMNAME), (k_seller, coerced fr item G_GOMNAME),
               (k_buyer, coerced fr item S_COMNAME), (k_currency, coerced fr item BZNAME),
               (k_method, coerced fr item ZRFS), (k_announce, PStr (take 10 s))]"
    by (rule build_row_InrD)
  from s coerced_not_null(2) [of fr item ANNOUNDATE] have t: "s \<noteq> []" by auto
  have keys: "map fst r =
     [k_serial, k_amount, k_code, k_name, k_related_sep, k_related_br, k_target, k_seller,
      k_buyer, k_currency, k_method, k_announce]"
    by (simp add: r)
  have vals: "list_all (\<lambda>(k, v). v \<noteq> PNone \<and> v \<noteq> PStr []) r"
    by (simp add: r coerced_not_null amount_cell_not_null links_cell_not_null t)
  have m1: "map_of r report_field = Some dash"
    if "(api_field, report_field) \<in> set field_mapping" "api_field \<noteq> OBJTYPE"
       "value_missing (item api_field)"
    using missing_cells [OF b that(1) that(3)] that(2) by simp
  have m2: "map_of r k_related_sep = Some dash \<and> map_of r k_related_br = Some dash"
    if "value_missing (item OBJTYPE)"
    using missing_cells [OF b _ that, of k_related] by (simp add: field_mapping_def)
  from keys vals m1 m2 row_has_no_related [OF b] show ?thesis by blast
qed

theorem row_fields_present_witness:
  "build_row no_repr 1 rec_gd = Inr (row_gd 1) \<and>
   map fst (row_gd 1) =
     [k_serial, k_amount, k_code, k_name, k_related_sep, k_related_br, k_target, k_seller,
      k_buyer, k_currency, k_method, k_announce] \<and>
   map_of (row_gd 1) k_related = None \<and>
   list_all (\<lambda>(k, v). v \<noteq> PNone \<and> v \<noteq> PStr []) (row_gd 1) \<and>
   (SNAME, k_name) \<in> set field_mapping \<and> SNAME \<noteq> OBJTYPE \<and> value_missing (rec_gd SNAME) \<and>
   map_of (row_gd 1) k_name = Some dash"
proof -
  have h: "build_row no_repr 1 rec_gd = Inr (row_gd 1)" by (rule build_row_gd)
  have m: "(SNAME, k_name) \<in> set field_mapping \<and> SNAME \<noteq> OBJTYPE \<and> value_missing (rec_gd SNAME)"
    by (simp add: field_mapping_def key_neqs) (simp add: rec_gd_def key_defs ascii_def)
  from row_fields_present [OF h, of SNAME k_name] m h show ?thesis by simp
qed

theorem related_key_counterexample:
  "retained today0 rec_gd \<and> build_row no_repr 1 rec_gd = Inr (row_gd 1) \<and>
   k_related \<notin> set (map fst (row_gd 1))"
  by (simp add: retained_def item_date_examples build_row_gd) (simp add: row_gd_def key_defs)

text \<open>
  C5. When \<^verbatim>\<open>process\<close> returns, the entries it appended to the region-tagged list are the
  copies of exactly those rows whose seller or buyer is a string other than the sentinel
  that contains a Guangdong keyword as a contiguous piece (code point for code point),
  in order; each copy has a related field, equal to its rendering with separator.
\<close>

theorem region_tagging:
  "process fr p raw_data = (Inr rows, p') \<Longrightarrow>
   \<exists>tags. guangdong_cases p' = guangdong_cases p @ tags \<and>
     map Inr tags = map case_data (filter region_row rows) \<and>
     list_all (\<lambda>c. map_of c k_related_sep \<noteq> None \<and> map_of c k_related = map_of c k_related_sep) tags"
proof (cases "raw_data = []")
  case True
  assume "process fr p raw_data = (Inr rows, p')"
  with True show ?thesis by (auto simp add: process_def)
next
  case False
  assume "process fr p raw_data = (Inr rows, p')"
  with False have "process_loop fr (today p) raw_data 1 [] (guangdong_cases p) =
      (Inr rows, guangdong_cases p')"
    by (auto simp add: process_def Let_def prod_eq_iff)
  from process_loop_Inr [OF this] obtain tags where
    "guangdong_cases p' = guangdong_cases p @ tags"
    "map Inr tags = map case_data (filter region_row rows)"
    by auto
  with case_data_all_related show ?thesis by blast
qed

theorem region_tagging_witness:
  "process no_repr \<lparr>today = today0, guangdong_cases = []\<rparr> [rec_gd, rec_old, rec_plain] =
     (Inr [row_gd 1, row_plain 2],
      \<lparr>today = today0,
       guangdong_cases =
         [AList.update k_related (PStr (links_sep (ascii ''000001''))) (row_gd 1)]\<rparr>) \<and>
   filter region_row [row_gd 1, row_plain 2] = [row_gd 1] \<and>
   (\<exists>tags. [AList.update k_related (PStr (links_sep (ascii ''000001''))) (row_gd 1)] = tags \<and>
      map Inr tags = map case_data [row_gd 1] \<and>
      list_all (\<lambda>c. map_of c k_related_sep \<noteq> None \<and> map_of c k_related = map_of c k_related_sep) tags)"
proof -
  have run: "process no_repr \<lparr>today = today0, guangdong_cases = []\<rparr> [rec_gd, rec_old, rec_plain] =
     (Inr [row_gd 1, row_plain 2],
      \<lparr>today = today0,
       guangdong_cases =
         [AList.update k_related (PStr (links_sep (ascii ''000001''))) (row_gd 1)]\<rparr>)"
    using process_example [of no_repr "[]"] by simp
  have f: "filter region_row [row_gd 1, row_plain 2] = [row_gd 1]"
    by (simp add: region_row_examples)
  from region_tagging [OF run] f run show ?thesis by simp
qed

text \<open>
  C6. What the code does on two feeds: a record whose disclosure date is null makes
  \<^verbatim>\<open>process\<close> raise \<^verbatim>\<open>TypeError\<close>; so does a record of the target date whose
  announcement date is a number, after the record before it was processed and tagged.
\<close>

theorem process_raises_on_data:
  "process no_repr \<lparr>today = today0, guangdong_cases = []\<rparr> [rec_null_date] =
     (Inl TypeError, \<lparr>today = today0, guangdong_cases = []\<rparr>) \<and>
   process no_repr \<lparr>today = today0, guangdong_cases = []\<rparr> [rec_gd, rec_bad_announce] =
     (Inl TypeError,
      \<lparr>today = today0,
       guangdong_cases =
         [AList.update k_related (PStr (links_sep (ascii ''000001''))) (row_gd 1)]\<rparr>)"
proof -
  have d: "item_date rec_null_date = Inl TypeError"
    "item_date rec_bad_announce = Inr today0"
    by (simp_all add: item_date_def rec_null_date_def rec_bad_announce_def today0_def key_defs
        ascii_def)
  show ?thesis
    by (simp add: process_def d item_date_examples build_row_gd region_examples
        build_row_bad_announce)
qed

text \<open>
  C7. With no rows, \<^verbatim>\<open>analyze\<close> returns the fixed no-data analysis whatever the grouping
  function is, \<^verbatim>\<open>generate_html\<close> returns nothing and writes nothing, \<^verbatim>\<open>generate\<close> returns
  no paths; and a run whose feed is not empty but yields no row for the target date
  sends one success status and attempts no delivery.
\<close>

theorem no_rows_no_report:
  "analyze vc p [] = (Inr no_data, p) \<and>
   generate_html e [] an date_str = (None, []) \<and>
   generate e [] an date_str = ([], []) \<and>
   (fet \<noteq> [] \<and> fst (process fr \<lparr>today = td, guangdong_cases = []\<rparr> fet) = Inr [] \<longrightarrow>
      main fr vc (e\<lparr>fetch_result := fet, clock_today := td\<rparr>) = [Status Success NoDataToday] \<and>
      \<not> list_ex is_send_file (main fr vc (e\<lparr>fetch_result := fet, clock_today := td\<rparr>)))"
  by (auto simp add: analyze_def generate_html_def generate_def main_def split: prod.splits)

theorem no_rows_no_report_witness:
  "[rec_old] \<noteq> [] \<and>
   fst (process no_repr \<lparr>today = today0, guangdong_cases = []\<rparr> [rec_old]) = Inr [] \<and>
   main no_repr tally env0 = [Status Success NoDataToday] \<and>
   \<not> list_ex is_send_file (main no_repr tally env0)"
proof -
  have h: "[rec_old] \<noteq> [] \<and>
      fst (process no_repr \<lparr>today = today0, guangdong_cases = []\<rparr> [rec_old]) = Inr []"
    by (simp add: process_old)
  have e: "env0\<lparr>fetch_result := [rec_old], clock_today := today0\<rparr> = env0"
    by (simp add: env0_def)
  from no_rows_no_report [where fet = "[rec_old]" and td = today0 and e = env0 and fr = no_repr
      and vc = tally and p = "\<lparr>today = today0, guangdong_cases = []\<rparr>" and an = no_data
      and date_str = "ascii ''20240506''"]
    h e show ?thesis by simp
qed

text \<open>
  C8. Run over the heap, \<^verbatim>\<open>process\<close> leaves every object that existed before as it was,
  and computes what the loop over values computes; at the end every row of the
  processed sequence holds exactly what was built for its record, every tagged entry is
  the copy with the related field overridden, and no tagged entry is one of the row
  objects.
\<close>

theorem rows_not_mutated:
  "valid h cs \<Longrightarrow> process_heap_loop fr td raws 1 h [] cs = (Inr pd', h', cs') \<Longrightarrow>
   prefix h h' \<and>
   process_loop fr td raws 1 [] (deref h cs) = (Inr (deref h' pd'), deref h' cs') \<and>
   map Inr (deref h' pd') =
     map (\<lambda>(i, item). build_row fr (1 + int i) item) (enumerate 0 (filter (retained td) raws)) \<and>
   (\<exists>tags. deref h' cs' = deref h cs @ tags \<and>
      map Inr tags = map case_data (filter region_row (deref h' pd'))) \<and>
   set pd' \<inter> set cs' = {}"
proof -
  assume v: "valid h cs" and run: "process_heap_loop fr td raws 1 h [] cs = (Inr pd', h', cs')"
  have "valid h []" by (simp add: valid_def)
  from process_heap_loop_refines [OF this v _ run]
  have p: "prefix h h'"
    and pure: "process_loop fr td raws 1 [] (deref h cs) = (Inr (deref h' pd'), deref h' cs')"
    and dj: "set pd' \<inter> set cs' = {}"
    by (simp_all add: deref_def)
  from process_loop_Inr [OF pure] have
    "map Inr (deref h' pd') =
       map (\<lambda>(i, item). build_row fr (1 + int i) item) (enumerate 0 (filter (retained td) raws))"
    "\<exists>tags. deref h' cs' = deref h cs @ tags \<and>
       map Inr tags = map case_data (filter region_row (deref h' pd'))"
    by auto
  with p pure dj show ?thesis by simp
qed

theorem rows_not_mutated_witness:
  "valid [] [] \<and>
   process_heap_loop no_repr today0 [rec_gd, rec_old, rec_plain] 1 [] [] [] =
     (Inr [0, 2],
      [row_gd 1, AList.update k_related (PStr (links_sep (ascii ''000001''))) (row_gd 1),
       row_plain 2],
      [1]) \<and>
   deref [row_gd 1, AList.update k_related (PStr (links_sep (ascii ''000001''))) (row_gd 1),
          row_plain 2] [0, 2] = [row_gd 1, row_plain 2] \<and>
   map Inr [row_gd 1, row_plain 2] =
     map (\<lambda>(i, item). build_row no_repr (1 + int i) item)
       (enumerate 0 (filter (retained today0) [rec_gd, rec_old, rec_plain])) \<and>
   set [0, 2] \<inter> set [1 :: nat] = {}"
proof -
  have v: "valid [] []" by (simp add: valid_def)
  have d: "deref [row_gd 1, AList.update k_related (PStr (links_sep (ascii ''000001''))) (row_gd 1),
          row_plain 2] [0, 2] = [row_gd 1, row_plain 2]"
    by (simp add: deref_def)
  from rows_not_mutated [OF v process_heap_example] v process_heap_example d
  show ?thesis by simp
qed

text \<open>
  C9. Running \<^verbatim>\<open>analyze\<close> leaves the processor as it was, and running it a second time
  on the same rows (from the state the first run left) gives the same result, hence the
  same \<^verbatim>\<open>total_count\<close>, \<^verbatim>\<open>guangdong_count\<close> and \<^verbatim>\<open>method_distribution\<close>.
\<close>

theorem analyze_twice:
  "snd (analyze vc p rows) = p \<and>
   analyze vc (snd (analyze vc p rows)) rows = analyze vc p rows"
proof -
  have unchanged: "snd (analyze vc p rows) = p"
    by (simp add: analyze_def split: sum.splits)
  then show ?thesis by simp
qed

text \<open>
  C10. For two non-empty row sequences analysed on the same processor, the cases and
  their count in the result are those of the processor's own list, whatever the rows
  are; and \<^verbatim>\<open>process\<close> appends to that list, so a second call on the same processor
  keeps the cases of the first.
\<close>

theorem cases_come_from_the_instance:
  "rows1 \<noteq> [] \<Longrightarrow> rows2 \<noteq> [] \<Longrightarrow>
   analyze vc p rows1 = (Inr a1, p1) \<Longrightarrow> analyze vc p rows2 = (Inr a2, p2) \<Longrightarrow>
   a_guangdong_cases a1 = guangdong_cases p \<and> a_guangdong_cases a2 = guangdong_cases p \<and>
   guangdong_count a1 = length (guangdong_cases p) \<and>
   guangdong_count a2 = length (guangdong_cases p) \<and>
   guangdong_cases (snd (process fr p raws)) =
     guangdong_cases p @ guangdong_cases (snd (process fr (p\<lparr>guangdong_cases := []\<rparr>) raws))"
proof -
  assume ne: "rows1 \<noteq> []" "rows2 \<noteq> []"
    and r1: "analyze vc p rows1 = (Inr a1, p1)" and r2: "analyze vc p rows2 = (Inr a2, p2)"
  from ne(1) r1 have "a_guangdong_cases a1 = guangdong_cases p \<and>
      guangdong_count a1 = length (guangdong_cases p)"
    by (auto simp add: analyze_def split: sum.splits)
  moreover from ne(2) r2 have "a_guangdong_cases a2 = guangdong_cases p \<and>
      guangdong_count a2 = length (guangdong_cases p)"
    by (auto simp add: analyze_def split: sum.splits)
  ultimately show ?thesis using process_cases_append [of fr p raws] by simp
qed


theorem cases_come_from_the_instance_witness:
  "[row_plain 1] \<noteq> [] \<and> [row_gd 1, row_plain 2] \<noteq> [] \<and>
   (case fst (analyze tally \<lparr>today = today0, guangdong_cases = [row_gd 7]\<rparr> [row_plain 1]) of
      Inr a \<Rightarrow> a_guangdong_cases a = [row_gd 7] \<and> guangdong_count a = 1
    | Inl err \<Rightarrow> False) \<and>
   (case fst (analyze tally \<lparr>today = today0, guangdong_cases = [row_gd 7]\<rparr>
               [row_gd 1, row_plain 2]) of
      Inr a \<Rightarrow> a_guangdong_cases a = [row_gd 7] \<and> guangdong_count a = 1
    | Inl err \<Rightarrow> False) \<and>
   guangdong_cases
     (snd (process no_repr \<lparr>today = today0, guangdong_cases = [row_gd 7]\<rparr>
            [rec_gd, rec_old, rec_plain])) =
     [row_gd 7, AList.update k_related (PStr (links_sep (ascii ''000001''))) (row_gd 1)]"
proof -
  let ?p = "\<lparr>today = today0, guangdong_cases = [row_gd 7]\<rparr>"
  have m: "map_of (row_plain k) k_method = Some dash" "map_of (row_gd k) k_method = Some dash"
    for k
    by (simp_all add: row_plain_def row_gd_def key_defs)
  obtain a1 where a1: "analyze tally ?p [row_plain 1] = (Inr a1, ?p)"
    by (simp add: analyze_def method_column_def m)
  obtain a2 where a2: "analyze tally ?p [row_gd 1, row_plain 2] = (Inr a2, ?p)"
    by (simp add: analyze_def method_column_def m)
  have ne: "[row_plain 1] \<noteq> []" "[row_gd 1, row_plain 2] \<noteq> []" by simp_all
  from cases_come_from_the_instance [OF ne a1 a2, of no_repr "[rec_gd, rec_old, rec_plain]"]
  show ?thesis
    using a1 a2 by (simp add: process_example)
qed

end
